theory Spec2Isabelle
  imports
    Complex_Main
    "HOL-Library.Product_Lexorder"
    "HOL-Library.Char_ord"
    "HOL-Library.List_Lexorder"
    "HOL-Library.Sublist"
begin

section \<open>Calendar dates\<close>

text \<open>
  The publication passes dates around as ISO strings (\<^verbatim>\<open>"2022-06-01"\<close>) and lets pandas
  parse them whenever they meet a date column. The model carries the parsed value: a
  triple of year, month and day. The lexicographic order on triples is the chronological
  order, and it is also the order of the ISO strings themselves.
\<close>

type_synonym date = "int \<times> nat \<times> nat"

definition year :: "date \<Rightarrow> int" where
  "year d = fst d"

definition month :: "date \<Rightarrow> nat" where
  "month d = fst (snd d)"

definition day :: "date \<Rightarrow> nat" where
  "day d = snd (snd d)"

definition is_leap_year :: "int \<Rightarrow> bool" where
  "is_leap_year y \<longleftrightarrow> (y mod 4 = 0 \<and> y mod 100 \<noteq> 0) \<or> y mod 400 = 0"

definition days_in_month :: "int \<Rightarrow> nat \<Rightarrow> nat" where
  "days_in_month y m =
     (if m = 2 then (if is_leap_year y then 29 else 28)
      else if m = 4 \<or> m = 6 \<or> m = 9 \<or> m = 11 then 30
      else 31)"

definition valid_date :: "date \<Rightarrow> bool" where
  "valid_date d \<longleftrightarrow>
     1 \<le> month d \<and> month d \<le> 12 \<and> 1 \<le> day d \<and> day d \<le> days_in_month (year d) (month d)"

text \<open>
  A pandas \<^verbatim>\<open>Timestamp\<close> counts nanoseconds in 64 bits, so whole days run from
  1677-09-22 to 2262-04-11; anything outside raises \<^verbatim>\<open>OutOfBoundsDatetime\<close>.
\<close>

definition in_timestamp_bounds :: "date \<Rightarrow> bool" where
  "in_timestamp_bounds d \<longleftrightarrow> (1677, 9, 22) \<le> d \<and> d \<le> (2262, 4, 11)"

datatype error = DataFormatError | OutOfBoundsDatetime | ValueError

definition to_datetime :: "date \<Rightarrow> error + date" where
  "to_datetime d =
     (if \<not> valid_date d then Inl DataFormatError
      else if \<not> in_timestamp_bounds d then Inl OutOfBoundsDatetime
      else Inr d)"

section \<open>Columns, masks and boolean indexing\<close>

text \<open>
  A data frame is the list of its rows and a column is the list of one field's values,
  null being \<open>None\<close>. Comparing a column with a scalar gives a boolean mask in which a
  null cell compares false, as \<^verbatim>\<open>NaT\<close> and \<^verbatim>\<open>NaN\<close> do in pandas.
\<close>

definition col :: "('r \<Rightarrow> 'a) \<Rightarrow> 'r list \<Rightarrow> 'a list" where
  "col f df = map f df"

definition series_le :: "date option list \<Rightarrow> date \<Rightarrow> bool list" where
  "series_le s d = map (\<lambda>v. case v of None \<Rightarrow> False | Some x \<Rightarrow> x \<le> d) s"

definition series_ge :: "date option list \<Rightarrow> date \<Rightarrow> bool list" where
  "series_ge s d = map (\<lambda>v. case v of None \<Rightarrow> False | Some x \<Rightarrow> d \<le> x) s"

definition series_gt :: "date option list \<Rightarrow> date \<Rightarrow> bool list" where
  "series_gt s d = map (\<lambda>v. case v of None \<Rightarrow> False | Some x \<Rightarrow> d < x) s"

definition isna :: "'a option list \<Rightarrow> bool list" where
  "isna s = map (\<lambda>v. v = None) s"

definition notna :: "'a option list \<Rightarrow> bool list" where
  "notna s = map (\<lambda>v. v \<noteq> None) s"

definition mask_and :: "bool list \<Rightarrow> bool list \<Rightarrow> bool list" where
  "mask_and a b = map (\<lambda>(x, y). x \<and> y) (zip a b)"

definition mask_or :: "bool list \<Rightarrow> bool list \<Rightarrow> bool list" where
  "mask_or a b = map (\<lambda>(x, y). x \<or> y) (zip a b)"

definition mask_not :: "bool list \<Rightarrow> bool list" where
  "mask_not a = map Not a"

text \<open>\<^verbatim>\<open>df[mask]\<close>: the rows whose mask entry is true, in their order.\<close>

definition loc_mask :: "'r list \<Rightarrow> bool list \<Rightarrow> 'r list" where
  "loc_mask df m = map fst (filter snd (zip df m))"

section \<open>NDOP records\<close>

text \<open>
  Every frame of the publication that is grouped, joined or sorted carries the three
  dimension columns \<^verbatim>\<open>ACH_DATE\<close>, \<^verbatim>\<open>AGE_BAND\<close> and \<^verbatim>\<open>GENDER\<close>; a frame that lacks one of
  them holds null there. One row of \<^verbatim>\<open>PRIM_POS.ic.NDOP_DEMOG\<close>, as \<^verbatim>\<open>config.get_ndop_data\<close>
  selects it, has six more columns; its \<^verbatim>\<open>ACH_DATE\<close> is the one \<^verbatim>\<open>slice_ndop_by_month\<close>
  adds (null until then).
\<close>

record dims =
  ACH_DATE :: "date option"
  AGE_BAND :: "string option"
  GENDER :: "string option"

record ndop_record = dims +
  NHS_Number :: "string option"
  DATE_OF_DEATH :: "date option"
  GP_PRACTICE :: "string option"
  LSOA_CODE :: "string option"
  Record_Start_Date :: "date option"
  Record_End_Date :: "date option"

section \<open>Temporal record resolver (ndop\_aggregate.py)\<close>

definition filter_living_patients :: "ndop_record list \<Rightarrow> date \<Rightarrow> ndop_record list" where
  "filter_living_patients df date =
     (let null_date_of_death = isna (col DATE_OF_DEATH df);
          rped_before_date_of_death = series_gt (col DATE_OF_DEATH df) date
      in loc_mask df (mask_or null_date_of_death rped_before_date_of_death))"

definition filter_deceased_patients :: "ndop_record list \<Rightarrow> date \<Rightarrow> ndop_record list" where
  "filter_deceased_patients df date = loc_mask df (series_le (col DATE_OF_DEATH df) date)"

text \<open>
  \<^verbatim>\<open>groupby(key)[value].rank(method="first", ascending=False)\<close>: within the rows that
  share a key, a row's rank is one more than the number of rows with a strictly greater
  value plus the number of earlier rows with the same value. A row whose key or value
  is null gets no rank (NaN). The function walks the column with the rows already seen
  in \<open>earlier\<close>.
\<close>

definition rank_of ::
  "('k option \<times> date option) list \<Rightarrow> 'k option \<times> date option \<Rightarrow>
   ('k option \<times> date option) list \<Rightarrow> nat option" where
  "rank_of earlier x later =
     (case x of
        (Some k, Some v) \<Rightarrow>
          Some (1
            + length (filter (\<lambda>(k', v'). k' = Some k \<and> (case v' of None \<Rightarrow> False | Some w \<Rightarrow> v \<le> w)) earlier)
            + length (filter (\<lambda>(k', v'). k' = Some k \<and> (case v' of None \<Rightarrow> False | Some w \<Rightarrow> v < w)) later))
      | _ \<Rightarrow> None)"

fun rank_first_desc ::
  "('k option \<times> date option) list \<Rightarrow> ('k option \<times> date option) list \<Rightarrow> nat option list" where
  "rank_first_desc earlier [] = []"
| "rank_first_desc earlier (x # later) = rank_of earlier x later # rank_first_desc (earlier @ [x]) later"

definition groupby_rank_first_desc :: "'k option list \<Rightarrow> date option list \<Rightarrow> nat option list" where
  "groupby_rank_first_desc keys vals = rank_first_desc [] (zip keys vals)"

definition retrieve_most_recent_record :: "ndop_record list \<Rightarrow> ndop_record list" where
  "retrieve_most_recent_record df =
     (let Row_Num = groupby_rank_first_desc (col NHS_Number df) (col Record_Start_Date df)
      in loc_mask df (map (\<lambda>k. k = Some 1) Row_Num))"

definition slice_ndop_by_month :: "ndop_record list \<Rightarrow> date \<Rightarrow> ndop_record list" where
  "slice_ndop_by_month df date =
     map (\<lambda>r. r\<lparr>ACH_DATE := Some date\<rparr>)
       (loc_mask df
          (mask_and (series_le (col Record_Start_Date df) date)
             (mask_or (series_ge (col Record_End_Date df) date) (isna (col Record_End_Date df)))))"

definition process_active_ndop_records :: "ndop_record list \<Rightarrow> date \<Rightarrow> ndop_record list" where
  "process_active_ndop_records df date =
     retrieve_most_recent_record (filter_living_patients (slice_ndop_by_month df date) date)"

definition process_deceased_ndop_records :: "ndop_record list \<Rightarrow> date \<Rightarrow> ndop_record list" where
  "process_deceased_ndop_records df date =
     retrieve_most_recent_record (filter_deceased_patients (slice_ndop_by_month df date) date)"

section \<open>Identifier cleaning (ndop\_clean.py, params.py)\<close>

definition INVALID_NHS_NUMBERS :: "string list" where
  "INVALID_NHS_NUMBERS =
     [''1111111111'', ''2222222222'', ''3333333333'', ''4444444444'', ''5555555555'',
      ''6666666666'', ''7777777777'', ''8888888888'', ''9999999999'']"

text \<open>
  \<^verbatim>\<open>Series.str[0]\<close> is the first character of a string, and null for a null cell and
  for the empty string. \<^verbatim>\<open>Series != x\<close> is true on a null cell; \<^verbatim>\<open>Series.isin\<close>
  is false on one.
\<close>

definition str_get0 :: "string option list \<Rightarrow> char option list" where
  "str_get0 s = map (\<lambda>v. case v of None \<Rightarrow> None | Some [] \<Rightarrow> None | Some (c # _) \<Rightarrow> Some c) s"

definition series_ne :: "'a option list \<Rightarrow> 'a \<Rightarrow> bool list" where
  "series_ne s x = map (\<lambda>v. v \<noteq> Some x) s"

definition series_eq :: "'a option list \<Rightarrow> 'a \<Rightarrow> bool list" where
  "series_eq s x = map (\<lambda>v. v = Some x) s"

definition series_isin :: "'a option list \<Rightarrow> 'a list \<Rightarrow> bool list" where
  "series_isin s xs = map (\<lambda>v. case v of None \<Rightarrow> False | Some x \<Rightarrow> x \<in> set xs) s"

definition fillna :: "'a \<Rightarrow> 'a option \<Rightarrow> 'a option" where
  "fillna x v = (case v of None \<Rightarrow> Some x | Some y \<Rightarrow> Some y)"

definition remove_nhs_number_starting_with_9 :: "ndop_record list \<Rightarrow> ndop_record list" where
  "remove_nhs_number_starting_with_9 df =
     loc_mask df (series_ne (str_get0 (col NHS_Number df)) (CHR ''9''))"

definition remove_nhs_number_which_are_null :: "ndop_record list \<Rightarrow> ndop_record list" where
  "remove_nhs_number_which_are_null df = loc_mask df (notna (col NHS_Number df))"

definition remove_nhs_number_which_are_invalid :: "ndop_record list \<Rightarrow> ndop_record list" where
  "remove_nhs_number_which_are_invalid df =
     loc_mask df (mask_not (series_isin (col NHS_Number df) INVALID_NHS_NUMBERS))"

definition fill_empty_categorical_column_values :: "ndop_record list \<Rightarrow> ndop_record list" where
  "fill_empty_categorical_column_values df =
     map (\<lambda>r. r\<lparr>GP_PRACTICE := fillna ''Unallocated'' (GP_PRACTICE r),
                  LSOA_CODE := fillna ''Unallocated'' (LSOA_CODE r)\<rparr>) df"

definition fill_empty_gender_column_values :: "ndop_record list \<Rightarrow> ndop_record list" where
  "fill_empty_gender_column_values df =
     map (\<lambda>r. r\<lparr>GENDER := fillna ''Unknown / Prefer not to say'' (GENDER r)\<rparr>) df"

definition clean_nhs_numbers :: "ndop_record list \<Rightarrow> ndop_record list" where
  "clean_nhs_numbers df =
     fill_empty_gender_column_values
       (fill_empty_categorical_column_values
          (remove_nhs_number_which_are_null
             (remove_nhs_number_starting_with_9
                (remove_nhs_number_which_are_invalid df))))"

section \<open>Reporting window (config.py)\<close>

text \<open>
  \<^verbatim>\<open>Timestamp - pd.DateOffset(months=n)\<close> moves the month back by \<open>n\<close> and clips the
  day to the length of the month it lands in.
\<close>

definition month_index :: "date \<Rightarrow> int" where
  "month_index d = year d * 12 + int (month d) - 1"

definition month_start :: "int \<Rightarrow> date" where
  "month_start k = (k div 12, nat (k mod 12) + 1, 1)"

definition sub_months :: "date \<Rightarrow> int \<Rightarrow> date" where
  "sub_months d n =
     (let k = month_index d - n; y = k div 12; m = nat (k mod 12) + 1
      in (y, m, min (day d) (days_in_month y m)))"

text \<open>
  \<^verbatim>\<open>pd.date_range(start, end, freq="MS")\<close>: the first days of months from the first one
  on or after \<open>start\<close> up to the last one on or before \<open>end\<close>, in ascending order.
\<close>

definition date_range_MS :: "date \<Rightarrow> date \<Rightarrow> date list" where
  "date_range_MS start end =
     map month_start
       [(if day start = 1 then month_index start else month_index start + 1) .. month_index end]"

record reportDates =
  end_date :: date
  publishing_date :: date
  reporting_period :: int
  start_date :: date

definition get_report_period_start_date :: "reportDates \<Rightarrow> error + date" where
  "get_report_period_start_date self =
     (case to_datetime (end_date self) of
        Inl e \<Rightarrow> Inl e
      | Inr report_date \<Rightarrow>
          (let report_start_date = sub_months report_date (reporting_period self)
           in if in_timestamp_bounds report_start_date then Inr report_start_date
              else Inl OutOfBoundsDatetime))"

text \<open>
  The dataclass constructor with \<^verbatim>\<open>__post_init__\<close>: \<open>start_date\<close> is not an argument, it
  is computed from the other fields (the value it holds before that is never read).
\<close>

definition new_reportDates :: "date \<Rightarrow> date \<Rightarrow> int \<Rightarrow> error + reportDates" where
  "new_reportDates e p n =
     (let self = \<lparr>end_date = e, publishing_date = p, reporting_period = n, start_date = e\<rparr>
      in case get_report_period_start_date self of
           Inl err \<Rightarrow> Inl err
         | Inr s \<Rightarrow> Inr (self\<lparr>start_date := s\<rparr>))"

definition get_reporting_months_list :: "reportDates \<Rightarrow> error + date list" where
  "get_reporting_months_list self =
     (case to_datetime (start_date self) of
        Inl e \<Rightarrow> Inl e
      | Inr s \<Rightarrow>
          (case to_datetime (end_date self) of
             Inl e \<Rightarrow> Inl e
           | Inr e \<Rightarrow> Inr (date_range_MS s e)))"

text \<open>\<^verbatim>\<open>pd.concat\<close> of an empty list of frames raises \<^verbatim>\<open>ValueError\<close>.\<close>

definition pd_concat :: "'r list list \<Rightarrow> error + 'r list" where
  "pd_concat dfs = (if dfs = [] then Inl ValueError else Inr (concat dfs))"

definition concatenate_ndop_monthly_records ::
  "(ndop_record list \<Rightarrow> date \<Rightarrow> ndop_record list) \<Rightarrow> ndop_record list \<Rightarrow> reportDates \<Rightarrow>
   error + ndop_record list" where
  "concatenate_ndop_monthly_records ndop_record_type_function df report_dt =
     (case get_reporting_months_list report_dt of
        Inl e \<Rightarrow> Inl e
      | Inr months \<Rightarrow> pd_concat (map (\<lambda>date. ndop_record_type_function df date) months))"

section \<open>Demographic aggregator (age\_gen\_csv.py)\<close>

text \<open>
  The measure lists of the publication name dimension columns only, so a measure is one
  of the three.
\<close>

datatype measure = Col_ACH_DATE | Col_AGE_BAND | Col_GENDER

definition NDOP_MEASURES :: "measure list list" where
  "NDOP_MEASURES =
     [[Col_ACH_DATE, Col_AGE_BAND, Col_GENDER],
      [Col_ACH_DATE, Col_GENDER],
      [Col_ACH_DATE, Col_AGE_BAND],
      [Col_ACH_DATE]]"

definition NDOP_DECEASED_MEASURES :: "measure list list" where
  "NDOP_DECEASED_MEASURES = [[Col_ACH_DATE, Col_GENDER], [Col_ACH_DATE]]"

text \<open>
  \<^verbatim>\<open>df.groupby(measures)\<close> drops every row with a null in one of the grouping columns,
  forms one group for each combination of values that is left, and lists the groups in
  ascending order of their keys, column by column in the order of the measures. The key
  of a row keeps the grouping columns and holds null in the others.
\<close>

definition has_null_key :: "measure list \<Rightarrow> 'a dims_scheme \<Rightarrow> bool" where
  "has_null_key cols r \<longleftrightarrow>
     (Col_ACH_DATE \<in> set cols \<and> ACH_DATE r = None) \<or>
     (Col_AGE_BAND \<in> set cols \<and> AGE_BAND r = None) \<or>
     (Col_GENDER \<in> set cols \<and> GENDER r = None)"

definition group_key :: "measure list \<Rightarrow> 'a dims_scheme \<Rightarrow> dims" where
  "group_key cols r =
     \<lparr>ACH_DATE = (if Col_ACH_DATE \<in> set cols then ACH_DATE r else None),
      AGE_BAND = (if Col_AGE_BAND \<in> set cols then AGE_BAND r else None),
      GENDER = (if Col_GENDER \<in> set cols then GENDER r else None)\<rparr>"

text \<open>
  The cell of one grouping column as the sort compares it: a date for \<^verbatim>\<open>ACH_DATE\<close>, a
  string for the other two, the unused half left constant.
\<close>

fun sort_cell :: "measure \<Rightarrow> dims \<Rightarrow> date \<times> string" where
  "sort_cell Col_ACH_DATE k = (case ACH_DATE k of None \<Rightarrow> ((0, 0, 0), []) | Some d \<Rightarrow> (d, []))"
| "sort_cell Col_AGE_BAND k = (case AGE_BAND k of None \<Rightarrow> ((0, 0, 0), []) | Some a \<Rightarrow> ((0, 0, 0), a))"
| "sort_cell Col_GENDER k = (case GENDER k of None \<Rightarrow> ((0, 0, 0), []) | Some g \<Rightarrow> ((0, 0, 0), g))"

definition groupby_groups :: "measure list \<Rightarrow> 'a dims_scheme list \<Rightarrow> dims list" where
  "groupby_groups cols df =
     sort_key (\<lambda>k. map (\<lambda>m. sort_cell m k) cols)
       (remdups (map (group_key cols) (filter (\<lambda>r. \<not> has_null_key cols r) df)))"

definition group_rows :: "measure list \<Rightarrow> dims \<Rightarrow> 'a dims_scheme list \<Rightarrow> 'a dims_scheme list" where
  "group_rows cols k df =
     filter (\<lambda>r. \<not> has_null_key cols r \<and> group_key cols r = k) df"

record opt_out_row = dims +
  OPT_OUT :: nat

text \<open>
  \<^verbatim>\<open>df.groupby(measures)["NHS_Number"].count().reset_index().rename(...)\<close>: one row for each
  group with the number of its non-null identifiers in \<^verbatim>\<open>OPT_OUT\<close>. An empty measure list
  has no group keys and a repeated measure cannot be turned back into a column; pandas
  raises \<^verbatim>\<open>ValueError\<close> for both.
\<close>

definition groupby_count_NHS_Number ::
  "ndop_record list \<Rightarrow> measure list \<Rightarrow> error + opt_out_row list" where
  "groupby_count_NHS_Number df cols =
     (if cols = [] \<or> \<not> distinct cols then Inl ValueError
      else Inr (map (\<lambda>k. \<lparr>ACH_DATE = ACH_DATE k, AGE_BAND = AGE_BAND k, GENDER = GENDER k,
                            OPT_OUT = length (filter (\<lambda>r. NHS_Number r \<noteq> None) (group_rows cols k df))\<rparr>)
                  (groupby_groups cols df)))"

text \<open>
  \<^verbatim>\<open>add_age_or_gender_columns\<close> adds whichever of \<^verbatim>\<open>AGE_BAND\<close> and \<^verbatim>\<open>GENDER\<close> the frame lacks
  and fills the nulls with the fill value. The frame has no other nulls: its grouping
  columns and its count are never null.
\<close>

definition add_age_or_gender_columns :: "opt_out_row list \<Rightarrow> string \<Rightarrow> opt_out_row list" where
  "add_age_or_gender_columns df fill_value =
     map (\<lambda>r. r\<lparr>AGE_BAND := fillna fill_value (AGE_BAND r),
                  GENDER := fillna fill_value (GENDER r)\<rparr>) df"

definition aggregate_ndop_by_measure ::
  "ndop_record list \<Rightarrow> measure list \<Rightarrow> string \<Rightarrow> error + opt_out_row list" where
  "aggregate_ndop_by_measure df cols fill_value =
     (case groupby_count_NHS_Number df cols of
        Inl e \<Rightarrow> Inl e
      | Inr counts \<Rightarrow> Inr (add_age_or_gender_columns counts fill_value))"

text \<open>A list comprehension over a function that may raise stops at the first error.\<close>

fun collect :: "(error + 'a) list \<Rightarrow> error + 'a list" where
  "collect [] = Inr []"
| "collect (x # xs) =
     (case x of
        Inl e \<Rightarrow> Inl e
      | Inr v \<Rightarrow> (case collect xs of Inl e \<Rightarrow> Inl e | Inr vs \<Rightarrow> Inr (v # vs)))"

definition create_df_list_for_age_gen_csv ::
  "ndop_record list \<Rightarrow> measure list list \<Rightarrow> string \<Rightarrow> error + opt_out_row list list" where
  "create_df_list_for_age_gen_csv df measure_groups fill_value =
     collect (map (\<lambda>m. aggregate_ndop_by_measure df m fill_value) measure_groups)"

text \<open>The sum of the counts that one aggregated frame holds for one snapshot date.\<close>

definition opt_out_total :: "date \<Rightarrow> opt_out_row list \<Rightarrow> nat" where
  "opt_out_total d agg = sum_list (map OPT_OUT (filter (\<lambda>a. ACH_DATE a = Some d) agg))"


section \<open>List-size denominators (list\_size.py)\<close>

text \<open>
  The long list-size frame, as far as the age and gender output reads it: the dimension
  columns and the number of registered patients (column \<^verbatim>\<open>LIST_SIZE\<close>, primed here to tell
  it from the joined column of the output frame).
\<close>

record list_size_row = dims +
  LIST_SIZE' :: "int option"

text \<open>\<^verbatim>\<open>df.groupby(measure)["LIST_SIZE"].sum().reset_index()\<close>; the sum skips nulls.\<close>

definition aggregate_list_size_by_measure ::
  "list_size_row list \<Rightarrow> measure list \<Rightarrow> error + list_size_row list" where
  "aggregate_list_size_by_measure df cols =
     (if cols = [] \<or> \<not> distinct cols then Inl ValueError
      else Inr (map (\<lambda>k. \<lparr>ACH_DATE = ACH_DATE k, AGE_BAND = AGE_BAND k, GENDER = GENDER k,
                            LIST_SIZE' = Some (sum_list (map (\<lambda>r. case LIST_SIZE' r of None \<Rightarrow> 0 | Some n \<Rightarrow> n)
                                                       (group_rows cols k df)))\<rparr>)
                  (groupby_groups cols df)))"

text \<open>
  \<^verbatim>\<open>str.replace("_", "-")\<close> and \<^verbatim>\<open>str.capitalize()\<close> on the letters of ASCII; a null cell
  stays null.
\<close>

definition to_upper :: "char \<Rightarrow> char" where
  "to_upper c = (if CHR ''a'' \<le> c \<and> c \<le> CHR ''z'' then char_of (of_char c - (32 :: nat)) else c)"

definition to_lower :: "char \<Rightarrow> char" where
  "to_lower c = (if CHR ''A'' \<le> c \<and> c \<le> CHR ''Z'' then char_of (of_char c + (32 :: nat)) else c)"

definition capitalize :: "string \<Rightarrow> string" where
  "capitalize s = (case s of [] \<Rightarrow> [] | c # cs \<Rightarrow> to_upper c # map to_lower cs)"

definition remap_gender_column :: "list_size_row list \<Rightarrow> list_size_row list" where
  "remap_gender_column df = map (\<lambda>r. r\<lparr>GENDER := map_option capitalize (GENDER r)\<rparr>) df"

definition remap_age_band :: "list_size_row list \<Rightarrow> list_size_row list" where
  "remap_age_band df =
     map (\<lambda>r. r\<lparr>AGE_BAND := map_option (map (\<lambda>c. if c = CHR ''_'' then CHR ''-'' else c)) (AGE_BAND r)\<rparr>) df"

definition age_gen_list_size_measure_groups :: "measure list list" where
  "age_gen_list_size_measure_groups =
     [[Col_ACH_DATE],
      [Col_ACH_DATE, Col_AGE_BAND, Col_GENDER],
      [Col_ACH_DATE, Col_AGE_BAND],
      [Col_ACH_DATE, Col_GENDER]]"

definition list_size_for_age_gen_csv :: "list_size_row list \<Rightarrow> error + list_size_row list" where
  "list_size_for_age_gen_csv list_size_df =
     (case collect (map (\<lambda>m. aggregate_list_size_by_measure list_size_df m)
                      age_gen_list_size_measure_groups) of
        Inl e \<Rightarrow> Inl e
      | Inr list_size_dfs \<Rightarrow>
          (case pd_concat list_size_dfs of
             Inl e \<Rightarrow> Inl e
           | Inr output \<Rightarrow>
               Inr (map (\<lambda>r. r\<lparr>AGE_BAND := fillna ''All'' (AGE_BAND r),
                                 GENDER := fillna ''All'' (GENDER r)\<rparr>)
                      (remap_gender_column (remap_age_band output)))))"

section \<open>Rates and output order (age\_gen\_csv.py)\<close>

text \<open>
  \<^verbatim>\<open>left.merge(right, on=["ACH_DATE", "AGE_BAND", "GENDER"], how="left")\<close>: every left row
  in its order, once for each right row with the same three keys (a null key matches a
  null key), or once with a null \<^verbatim>\<open>LIST_SIZE\<close> when there is none. The result is indexed
  afresh from 0, and the frames below carry that index label beside each row. The two
  \<^verbatim>\<open>ACH_DATE\<close> columns are taken to hold dates of one representation.
\<close>

record merged_row = opt_out_row +
  LIST_SIZE :: "int option"

definition same_dims :: "'a dims_scheme \<Rightarrow> 'b dims_scheme \<Rightarrow> bool" where
  "same_dims l r \<longleftrightarrow>
     ACH_DATE l = ACH_DATE r \<and> AGE_BAND l = AGE_BAND r \<and> GENDER l = GENDER r"

definition joined :: "opt_out_row \<Rightarrow> int option \<Rightarrow> merged_row" where
  "joined l v =
     \<lparr>ACH_DATE = ACH_DATE l, AGE_BAND = AGE_BAND l, GENDER = GENDER l, OPT_OUT = OPT_OUT l,
      LIST_SIZE = v\<rparr>"

definition merge_left :: "opt_out_row list \<Rightarrow> list_size_row list \<Rightarrow> (nat \<times> merged_row) list" where
  "merge_left left right =
     enumerate 0
       (concat (map (\<lambda>l. case filter (same_dims l) right of
                             [] \<Rightarrow> [joined l None]
                           | m # ms \<Rightarrow> map (\<lambda>r. joined l (LIST_SIZE' r)) (m # ms)) left))"

text \<open>
  A 64-bit float as far as the rate column needs it: a finite value (taken exactly,
  rounding is not modelled), an infinity or NaN. Dividing a count by a list size follows
  IEEE 754 as numpy does: a null list size gives NaN, zero by zero gives NaN, and a
  positive count by zero gives plus infinity, without an exception.
\<close>

datatype float = Finite real | PosInf | NegInf | NaN

definition true_divide :: "nat \<Rightarrow> int option \<Rightarrow> float" where
  "true_divide c l =
     (case l of
        None \<Rightarrow> NaN
      | Some n \<Rightarrow>
          (if n = 0 then (if c = 0 then NaN else PosInf)
           else Finite (real c / real_of_int n)))"

definition times_100 :: "float \<Rightarrow> float" where
  "times_100 x = (case x of Finite v \<Rightarrow> Finite (100 * v) | PosInf \<Rightarrow> PosInf | NegInf \<Rightarrow> NegInf | NaN \<Rightarrow> NaN)"

record age_gen_row = merged_row +
  OPT_OUT_RATE :: float

definition calculate_opt_out_rate :: "(nat \<times> merged_row) list \<Rightarrow> (nat \<times> age_gen_row) list" where
  "calculate_opt_out_rate df =
     map (\<lambda>(i, r). (i, \<lparr>ACH_DATE = ACH_DATE r, AGE_BAND = AGE_BAND r, GENDER = GENDER r,
                          OPT_OUT = OPT_OUT r, LIST_SIZE = LIST_SIZE r,
                          OPT_OUT_RATE = times_100 (true_divide (OPT_OUT r) (LIST_SIZE r))\<rparr>)) df"

text \<open>\<^verbatim>\<open>replace(np.nan, 0)\<close> on the rate and on the list size.\<close>

definition fill_list_size_and_opt_out_nan_values ::
  "(nat \<times> age_gen_row) list \<Rightarrow> (nat \<times> age_gen_row) list" where
  "fill_list_size_and_opt_out_nan_values df =
     map (\<lambda>(i, r). (i, r\<lparr>OPT_OUT_RATE := (case OPT_OUT_RATE r of NaN \<Rightarrow> Finite 0 | x \<Rightarrow> x),
                            LIST_SIZE := fillna 0 (LIST_SIZE r)\<rparr>)) df"

text \<open>
  \<^verbatim>\<open>astype(CategoricalDtype(categories, ordered=True))\<close>: a value that is not one of the
  categories becomes null; a category sorts by its position and null sorts last.
\<close>

definition GENDER_categories :: "string list" where
  "GENDER_categories = [''All'', ''All deceased'', ''Female'', ''Male'', ''Unknown / Prefer not to say'']"

definition AGE_BAND_categories :: "string list" where
  "AGE_BAND_categories =
     [''0-9'', ''10-19'', ''20-29'', ''30-39'', ''40-49'', ''50-59'', ''60-69'', ''70-79'',
      ''80-89'', ''90+'', ''All'', ''Unknown'', ''All deceased'']"

definition astype_category :: "string list \<Rightarrow> string option \<Rightarrow> string option" where
  "astype_category categories v =
     (case v of None \<Rightarrow> None | Some x \<Rightarrow> if x \<in> set categories then Some x else None)"

fun index_of :: "'a list \<Rightarrow> 'a \<Rightarrow> nat" where
  "index_of [] x = 0"
| "index_of (y # ys) x = (if x = y then 0 else Suc (index_of ys x))"

definition category_code :: "string list \<Rightarrow> string option \<Rightarrow> nat" where
  "category_code categories v =
     (case v of None \<Rightarrow> length categories | Some x \<Rightarrow> index_of categories x)"

definition convert_gender_column_to_categorical ::
  "(nat \<times> age_gen_row) list \<Rightarrow> (nat \<times> age_gen_row) list" where
  "convert_gender_column_to_categorical df =
     map (\<lambda>(i, r). (i, r\<lparr>GENDER := astype_category GENDER_categories (GENDER r)\<rparr>)) df"

definition convert_age_column_to_categorical ::
  "(nat \<times> age_gen_row) list \<Rightarrow> (nat \<times> age_gen_row) list" where
  "convert_age_column_to_categorical df =
     map (\<lambda>(i, r). (i, r\<lparr>AGE_BAND := astype_category AGE_BAND_categories (AGE_BAND r)\<rparr>)) df"

text \<open>
  \<^verbatim>\<open>df.drop(df[mask].index)\<close> removes rows by index label: every row whose label is the
  label of a masked row.
\<close>

definition suppress_unknown_undisclosed_gender_rows ::
  "(nat \<times> 'a dims_scheme) list \<Rightarrow> (nat \<times> 'a dims_scheme) list" where
  "suppress_unknown_undisclosed_gender_rows df =
     (let undisclosed_gender = series_eq (col (GENDER \<circ> snd) df) ''Unknown / Prefer not to say'';
          not_all_age_or_deceased =
            mask_not (series_isin (col (AGE_BAND \<circ> snd) df) [''All'', ''All deceased'']);
          labels = map fst (loc_mask df (mask_and undisclosed_gender not_all_age_or_deceased))
      in filter (\<lambda>(i, r). i \<notin> set labels) df)"

text \<open>
  \<^verbatim>\<open>sort_values(["ACH_DATE", "GENDER", "AGE_BAND"], ascending=[False, True, True])\<close>: a
  stable sort, latest date first, then gender and age band by category, nulls last.
\<close>

definition sort_values_key :: "'a dims_scheme \<Rightarrow> (nat \<times> int \<times> int \<times> int) \<times> nat \<times> nat" where
  "sort_values_key r =
     ((case ACH_DATE r of
         None \<Rightarrow> (1, 0, 0, 0)
       | Some d \<Rightarrow> (0, - year d, - int (month d), - int (day d))),
      category_code GENDER_categories (GENDER r),
      category_code AGE_BAND_categories (AGE_BAND r))"

definition sort_values :: "(nat \<times> 'a dims_scheme) list \<Rightarrow> (nat \<times> 'a dims_scheme) list" where
  "sort_values df = sort_key (\<lambda>(i, r). sort_values_key r) df"

text \<open>
  The whole of \<^verbatim>\<open>create_age_gen_csv\<close> but its last step, \<^verbatim>\<open>utils.format_publication_date\<close>,
  which rewrites each date as dd/mm/yyyy and changes nothing else.
\<close>

definition create_age_gen_csv ::
  "ndop_record list \<Rightarrow> ndop_record list \<Rightarrow> list_size_row list \<Rightarrow>
   error + (nat \<times> age_gen_row) list" where
  "create_age_gen_csv ndop_df ndop_deceased_df list_size_df =
     (case create_df_list_for_age_gen_csv ndop_df NDOP_MEASURES ''All'' of
        Inl e \<Rightarrow> Inl e
      | Inr ndop_dfs \<Rightarrow>
     (case create_df_list_for_age_gen_csv ndop_deceased_df NDOP_DECEASED_MEASURES ''All deceased'' of
        Inl e \<Rightarrow> Inl e
      | Inr ndop_deceased_dfs \<Rightarrow>
     (case list_size_for_age_gen_csv list_size_df of
        Inl e \<Rightarrow> Inl e
      | Inr list_size_for_age_gen_df \<Rightarrow>
     (case pd_concat (ndop_dfs @ ndop_deceased_dfs) of
        Inl e \<Rightarrow> Inl e
      | Inr counts \<Rightarrow>
          Inr (sort_values
                (suppress_unknown_undisclosed_gender_rows
                  (convert_age_column_to_categorical
                    (convert_gender_column_to_categorical
                      (fill_list_size_and_opt_out_nan_values
                        (calculate_opt_out_rate
                          (merge_left counts list_size_for_age_gen_df)))))))))))"

section \<open>Sample tables\<close>

text \<open>
  Patient B of the specification's scenario: one open-ended record with a date of death
  of 2022-06-01.
\<close>

definition patient_B :: ndop_record where
  "patient_B =
     \<lparr>ACH_DATE = None,
       AGE_BAND = Some ''40-49'',
       GENDER = Some ''Male'',
       NHS_Number = Some ''4000000002'',
       DATE_OF_DEATH = Some (2022, 6, 1),
       GP_PRACTICE = Some ''M12345'',
       LSOA_CODE = Some ''E01000001'',
       Record_Start_Date = Some (2020, 1, 1),
       Record_End_Date = None\<rparr>"

text \<open>
  Two versions of one patient where the second starts on the day the first ends, so both
  are active on that day; only the second carries the date of death.
\<close>

definition handover_versions :: "ndop_record list" where
  "handover_versions =
     [\<lparr>ACH_DATE = None,
       AGE_BAND = Some ''70-79'',
       GENDER = Some ''Female'',
       NHS_Number = Some ''4000000001'',
       DATE_OF_DEATH = None,
       GP_PRACTICE = Some ''M12345'',
       LSOA_CODE = Some ''E01000001'',
       Record_Start_Date = Some (2020, 1, 1),
       Record_End_Date = Some (2022, 6, 1)\<rparr>,
      \<lparr>ACH_DATE = None,
       AGE_BAND = Some ''70-79'',
       GENDER = Some ''Female'',
       NHS_Number = Some ''4000000001'',
       DATE_OF_DEATH = Some (2022, 5, 20),
       GP_PRACTICE = Some ''M12345'',
       LSOA_CODE = Some ''E01000001'',
       Record_Start_Date = Some (2022, 6, 1),
       Record_End_Date = None\<rparr>]"


text \<open>
  Patient A of the specification's scenario, with a third version that starts on the same
  day as the second.
\<close>

definition patient_A_versions :: "ndop_record list" where
  "patient_A_versions =
     [\<lparr>ACH_DATE = None,
       AGE_BAND = Some ''40-49'',
       GENDER = Some ''Female'',
       NHS_Number = Some ''4000000003'',
       DATE_OF_DEATH = None,
       GP_PRACTICE = Some ''M12345'',
       LSOA_CODE = Some ''E01000001'',
       Record_Start_Date = Some (2021, 1, 1),
       Record_End_Date = None\<rparr>,
      \<lparr>ACH_DATE = None,
       AGE_BAND = Some ''50-59'',
       GENDER = Some ''Female'',
       NHS_Number = Some ''4000000003'',
       DATE_OF_DEATH = None,
       GP_PRACTICE = Some ''M12345'',
       LSOA_CODE = Some ''E01000001'',
       Record_Start_Date = Some (2022, 1, 1),
       Record_End_Date = None\<rparr>,
      \<lparr>ACH_DATE = None,
       AGE_BAND = Some ''50-59'',
       GENDER = Some ''Female'',
       NHS_Number = Some ''4000000003'',
       DATE_OF_DEATH = None,
       GP_PRACTICE = Some ''N54321'',
       LSOA_CODE = Some ''E01000001'',
       Record_Start_Date = Some (2022, 1, 1),
       Record_End_Date = None\<rparr>]"

text \<open>Identifiers of each kind that the cleaning step looks for.\<close>

definition identifier_samples :: "ndop_record list" where
  "identifier_samples =
     map (\<lambda>n. \<lparr>ACH_DATE = None,
       AGE_BAND = Some ''40-49'',
       GENDER = None,
       NHS_Number = n,
       DATE_OF_DEATH = None,
       GP_PRACTICE = None,
       LSOA_CODE = Some ''E01000001'',
       Record_Start_Date = Some (2020, 1, 1),
       Record_End_Date = None\<rparr>)
       [Some ''5555555555'', Some ''4000000004'', Some ''9000000009'', None, Some ''9999999999'']"

text \<open>
  Two living patients, one of them with no age band, as the database may hold them; the
  report dates of a window of the single month 2022-06; the living table the pipeline
  builds from the two; and that table once the missing age band is given a value.
\<close>

definition null_age_table :: "ndop_record list" where
  "null_age_table =
     [\<lparr>ACH_DATE = None, AGE_BAND = None, GENDER = Some ''Male'',
       NHS_Number = Some ''4000000005'', DATE_OF_DEATH = None, GP_PRACTICE = Some ''M12345'',
       LSOA_CODE = Some ''E01000001'', Record_Start_Date = Some (2020, 1, 1),
       Record_End_Date = None\<rparr>,
      \<lparr>ACH_DATE = None, AGE_BAND = Some ''40-49'', GENDER = Some ''Female'',
       NHS_Number = Some ''4000000006'', DATE_OF_DEATH = None, GP_PRACTICE = Some ''M12345'',
       LSOA_CODE = Some ''E01000001'', Record_Start_Date = Some (2020, 1, 1),
       Record_End_Date = None\<rparr>]"

definition june_reportDates :: reportDates where
  "june_reportDates =
     \<lparr>end_date = (2022, 6, 1), publishing_date = (2022, 7, 7), reporting_period = 0,
      start_date = (2022, 6, 1)\<rparr>"

definition null_age_living :: "ndop_record list" where
  "null_age_living = map (\<lambda>r. r\<lparr>ACH_DATE := Some (2022, 6, 1)\<rparr>) null_age_table"

definition known_age_living :: "ndop_record list" where
  "known_age_living = map (\<lambda>r. r\<lparr>AGE_BAND := fillna ''Unknown'' (AGE_BAND r)\<rparr>) null_age_living"



text \<open>
  A list-size frame in which women of 40 to 49 have no registered population; the living
  table of the one woman of that age who opted out; the living table of two patients of
  undisclosed gender; and rows of undisclosed gender of every kind of age band.
\<close>

definition zero_list_size :: "list_size_row list" where
  "zero_list_size =
     [\<lparr>ACH_DATE = Some (2022, 6, 1), AGE_BAND = Some ''40_49'', GENDER = Some ''FEMALE'',
       LIST_SIZE' = Some 0\<rparr>,
      \<lparr>ACH_DATE = Some (2022, 6, 1), AGE_BAND = Some ''50_59'', GENDER = Some ''MALE'',
       LIST_SIZE' = Some 250\<rparr>]"

definition one_opt_out_living :: "ndop_record list" where
  "one_opt_out_living = tl null_age_living"

definition unknown_gender_living :: "ndop_record list" where
  "unknown_gender_living =
     map (\<lambda>r. r\<lparr>GENDER := Some ''Unknown / Prefer not to say''\<rparr>) known_age_living"

definition unknown_gender_rows :: "dims list" where
  "unknown_gender_rows =
     [\<lparr>ACH_DATE = Some (2022, 6, 1), AGE_BAND = Some ''40-49'', GENDER = Some ''Unknown / Prefer not to say''\<rparr>,
      \<lparr>ACH_DATE = Some (2022, 6, 1), AGE_BAND = Some ''All'', GENDER = Some ''Unknown / Prefer not to say''\<rparr>,
      \<lparr>ACH_DATE = Some (2022, 6, 1), AGE_BAND = None, GENDER = Some ''Unknown / Prefer not to say''\<rparr>,
      \<lparr>ACH_DATE = Some (2022, 6, 1), AGE_BAND = Some ''All deceased'', GENDER = Some ''Unknown / Prefer not to say''\<rparr>,
      \<lparr>ACH_DATE = Some (2022, 6, 1), AGE_BAND = Some ''40-49'', GENDER = Some ''Male''\<rparr>]"

text \<open>The age and gender output for the two patients of undisclosed gender.\<close>

definition unknown_gender_output :: "(nat \<times> age_gen_row) list" where
  "unknown_gender_output =
     [(3, \<lparr>ACH_DATE = Some (2022, 6, 1), AGE_BAND = Some ''40-49'', GENDER = Some ''All'',
           OPT_OUT = 1, LIST_SIZE = Some 0, OPT_OUT_RATE = PosInf\<rparr>),
      (5, \<lparr>ACH_DATE = Some (2022, 6, 1), AGE_BAND = Some ''All'', GENDER = Some ''All'',
           OPT_OUT = 2, LIST_SIZE = Some 250, OPT_OUT_RATE = Finite (4 / 5)\<rparr>),
      (4, \<lparr>ACH_DATE = Some (2022, 6, 1), AGE_BAND = Some ''Unknown'', GENDER = Some ''All'',
           OPT_OUT = 1, LIST_SIZE = Some 0, OPT_OUT_RATE = Finite 0\<rparr>),
      (2, \<lparr>ACH_DATE = Some (2022, 6, 1), AGE_BAND = Some ''All'',
           GENDER = Some ''Unknown / Prefer not to say'',
           OPT_OUT = 2, LIST_SIZE = Some 0, OPT_OUT_RATE = Finite 0\<rparr>)]"


section \<open>Row-wise reading of the ranking\<close>

text \<open>
  A row has rank 1 exactly when its identifier and start date are present, no earlier row
  of the same identifier starts on or after it, and no later row of the same identifier
  starts after it. \<open>keep_most_recent\<close> walks the table with that test.
\<close>

definition first_most_recent :: "ndop_record list \<Rightarrow> ndop_record \<Rightarrow> ndop_record list \<Rightarrow> bool" where
  "first_most_recent earlier r later \<longleftrightarrow>
     (case (NHS_Number r, Record_Start_Date r) of
        (Some k, Some v) \<Rightarrow>
          (\<forall>r' \<in> set earlier. NHS_Number r' = Some k \<longrightarrow>
             (case Record_Start_Date r' of None \<Rightarrow> True | Some w \<Rightarrow> w < v)) \<and>
          (\<forall>r' \<in> set later. NHS_Number r' = Some k \<longrightarrow>
             (case Record_Start_Date r' of None \<Rightarrow> True | Some w \<Rightarrow> w \<le> v))
      | _ \<Rightarrow> False)"

fun keep_most_recent :: "ndop_record list \<Rightarrow> ndop_record list \<Rightarrow> ndop_record list" where
  "keep_most_recent earlier [] = []"
| "keep_most_recent earlier (r # later) =
     (if first_most_recent earlier r later then [r] else []) @ keep_most_recent (earlier @ [r]) later"

definition key_start :: "ndop_record \<Rightarrow> string option \<times> date option" where
  "key_start r = (NHS_Number r, Record_Start_Date r)"

section \<open>Row-wise reading of the identifier checks\<close>

text \<open>
  An identifier survives the three removal steps when it is present, does not begin with
  the character 9 and is not one of the listed invalid numbers.
\<close>

definition valid_nhs_number :: "string option \<Rightarrow> bool" where
  "valid_nhs_number v \<longleftrightarrow>
     (case v of None \<Rightarrow> False
      | Some n \<Rightarrow> (case n of [] \<Rightarrow> True | c # _ \<Rightarrow> c \<noteq> CHR ''9'') \<and> n \<notin> set INVALID_NHS_NUMBERS)"

section \<open>Row-wise reading of the suppression and the rate steps\<close>

text \<open>
  The rows the suppression mask marks, and the steps of \<^verbatim>\<open>create_age_gen_csv\<close> between the
  join and the suppression.
\<close>

definition suppressed :: "'a dims_scheme \<Rightarrow> bool" where
  "suppressed r \<longleftrightarrow>
     GENDER r = Some ''Unknown / Prefer not to say''
     \<and> AGE_BAND r \<noteq> Some ''All'' \<and> AGE_BAND r \<noteq> Some ''All deceased''"

definition rate_pipeline :: "opt_out_row list \<Rightarrow> list_size_row list \<Rightarrow> (nat \<times> age_gen_row) list" where
  "rate_pipeline counts ls =
     convert_age_column_to_categorical
       (convert_gender_column_to_categorical
         (fill_list_size_and_opt_out_nan_values
           (calculate_opt_out_rate (merge_left counts ls))))"

section \<open>Masks and row predicates\<close>

lemma loc_mask_map: "loc_mask df (map p df) = filter p df"
  unfolding loc_mask_def by (induction df) auto

lemma mask_and_map: "mask_and (map p xs) (map q xs) = map (\<lambda>x. p x \<and> q x) xs"
  unfolding mask_and_def by (induction xs) auto

lemma mask_or_map: "mask_or (map p xs) (map q xs) = map (\<lambda>x. p x \<or> q x) xs"
  unfolding mask_or_def by (induction xs) auto

lemma series_le_col:
  "series_le (col f df) d = map (\<lambda>r. case f r of None \<Rightarrow> False | Some x \<Rightarrow> x \<le> d) df"
  by (simp add: series_le_def col_def)

lemma series_ge_col:
  "series_ge (col f df) d = map (\<lambda>r. case f r of None \<Rightarrow> False | Some x \<Rightarrow> d \<le> x) df"
  by (simp add: series_ge_def col_def)

lemma series_gt_col:
  "series_gt (col f df) d = map (\<lambda>r. case f r of None \<Rightarrow> False | Some x \<Rightarrow> d < x) df"
  by (simp add: series_gt_def col_def)

lemma isna_col: "isna (col f df) = map (\<lambda>r. f r = None) df"
  by (simp add: isna_def col_def)

lemma notna_col: "notna (col f df) = map (\<lambda>r. f r \<noteq> None) df"
  by (simp add: notna_def col_def)

section \<open>The resolver keeps the first most recent record\<close>

lemma rank_of_one:
  "rank_of (map key_start earlier) (key_start r) (map key_start later) = Some 1
     \<longleftrightarrow> first_most_recent earlier r later"
  unfolding rank_of_def first_most_recent_def key_start_def
  by (auto simp: filter_empty_conv split: option.splits prod.splits)

lemma zip_cols: "zip (map f xs) (map g xs) = map (\<lambda>r. (f r, g r)) xs"
  by (induction xs) auto

lemma loc_mask_Cons: "loc_mask (x # xs) (b # bs) = (if b then [x] else []) @ loc_mask xs bs"
  by (simp add: loc_mask_def)

lemma loc_mask_Nil: "loc_mask [] bs = []"
  by (simp add: loc_mask_def)

lemma retrieve_zipper:
  "loc_mask xs (map (\<lambda>k. k = Some 1) (rank_first_desc (map key_start earlier) (map key_start xs)))
     = keep_most_recent earlier xs"
proof (induction xs arbitrary: earlier)
  case Nil
  then show ?case by (simp add: loc_mask_Nil)
next
  case (Cons x xs)
  have "rank_first_desc (map key_start earlier @ [key_start x]) (map key_start xs)
      = rank_first_desc (map key_start (earlier @ [x])) (map key_start xs)" by simp
  with Cons[of "earlier @ [x]"] show ?case
    by (simp add: loc_mask_Cons rank_of_one[unfolded One_nat_def] del: map_append)
qed

lemma retrieve_keep: "retrieve_most_recent_record df = keep_most_recent [] df"
proof -
  have "key_start = (\<lambda>r. (NHS_Number r, Record_Start_Date r))"
    by (auto simp: key_start_def)
  with retrieve_zipper[of df "[]"] show ?thesis
    by (simp add: retrieve_most_recent_record_def groupby_rank_first_desc_def col_def zip_cols)
qed

lemma keep_subseq: "subseq (keep_most_recent earlier xs) xs"
  by (induction xs arbitrary: earlier) (auto simp: subseq_Cons')

lemma keep_set: "set (keep_most_recent earlier xs) \<subseteq> set xs"
  by (induction xs arbitrary: earlier) auto

lemma keep_mem:
  "r \<in> set (keep_most_recent earlier xs) \<Longrightarrow>
     \<exists>k v. NHS_Number r = Some k \<and> Record_Start_Date r = Some v \<and>
       (\<forall>r' \<in> set earlier. NHS_Number r' = Some k \<longrightarrow>
          (case Record_Start_Date r' of None \<Rightarrow> True | Some w \<Rightarrow> w < v)) \<and>
       (\<forall>r' \<in> set xs. NHS_Number r' = Some k \<longrightarrow>
          (case Record_Start_Date r' of None \<Rightarrow> True | Some w \<Rightarrow> w \<le> v))"
proof (induction xs arbitrary: earlier)
  case Nil
  then show ?case by simp
next
  case (Cons x xs)
  show ?case
  proof (cases "r \<in> set (keep_most_recent (earlier @ [x]) xs)")
    case True
    from Cons.IH[OF True] obtain k v where kv: "NHS_Number r = Some k" "Record_Start_Date r = Some v"
      and e: "\<forall>r' \<in> set (earlier @ [x]). NHS_Number r' = Some k \<longrightarrow>
          (case Record_Start_Date r' of None \<Rightarrow> True | Some w \<Rightarrow> w < v)"
      and l: "\<forall>r' \<in> set xs. NHS_Number r' = Some k \<longrightarrow>
          (case Record_Start_Date r' of None \<Rightarrow> True | Some w \<Rightarrow> w \<le> v)"
      by blast
    show ?thesis
      using kv e l by (auto split: option.splits)
  next
    case False
    with Cons.prems have rx: "r = x" and f: "first_most_recent earlier x xs"
      by (auto split: if_splits)
    then show ?thesis
      unfolding first_most_recent_def by (auto split: option.splits)
  qed
qed

lemma keep_distinct: "distinct (map NHS_Number (keep_most_recent earlier xs))"
proof (induction xs arbitrary: earlier)
  case Nil
  then show ?case by simp
next
  case (Cons x xs)
  have "NHS_Number x \<notin> NHS_Number ` set (keep_most_recent (earlier @ [x]) xs)"
    if f: "first_most_recent earlier x xs"
  proof
    assume "NHS_Number x \<in> NHS_Number ` set (keep_most_recent (earlier @ [x]) xs)"
    then obtain r where r: "r \<in> set (keep_most_recent (earlier @ [x]) xs)" and eq: "NHS_Number r = NHS_Number x"
      by auto
    from keep_mem[OF r] obtain k v where kv: "NHS_Number r = Some k" "Record_Start_Date r = Some v"
      and e: "\<forall>r' \<in> set (earlier @ [x]). NHS_Number r' = Some k \<longrightarrow>
          (case Record_Start_Date r' of None \<Rightarrow> True | Some w \<Rightarrow> w < v)"
      by blast
    from f obtain vx where vx: "Record_Start_Date x = Some vx"
      and l: "\<forall>r' \<in> set xs. NHS_Number r' = Some k \<longrightarrow>
          (case Record_Start_Date r' of None \<Rightarrow> True | Some w \<Rightarrow> w \<le> vx)"
      using eq kv unfolding first_most_recent_def by (auto split: option.splits)
    from e eq kv vx have "vx < v" by auto
    moreover have "r \<in> set xs" using r keep_set[of "earlier @ [x]" xs] by blast
    with l kv(1) have "case Record_Start_Date r of None \<Rightarrow> True | Some w \<Rightarrow> w \<le> vx" by blast
    with kv(2) have "v \<le> vx" by simp
    ultimately show False by simp
  qed
  with Cons.IH[of "earlier @ [x]"] show ?case by auto
qed

lemma keep_find:
  "r \<in> set (keep_most_recent earlier xs) \<Longrightarrow>
     (\<forall>r' \<in> set earlier. \<not> (NHS_Number r' = NHS_Number r \<and> Record_Start_Date r' = Record_Start_Date r)) \<and>
     find (\<lambda>r'. NHS_Number r' = NHS_Number r \<and> Record_Start_Date r' = Record_Start_Date r) xs = Some r"
proof (induction xs arbitrary: earlier)
  case Nil
  then show ?case by simp
next
  case (Cons x xs)
  show ?case
  proof (cases "r \<in> set (keep_most_recent (earlier @ [x]) xs)")
    case True
    from Cons.IH[OF True] show ?thesis by auto
  next
    case False
    with Cons.prems have rx: "r = x" and f: "first_most_recent earlier x xs"
      by (auto split: if_splits)
    then show ?thesis
      unfolding first_most_recent_def by (fastforce split: option.splits)
  qed
qed

lemma keep_exists:
  "r \<in> set xs \<Longrightarrow> NHS_Number r = Some k \<Longrightarrow> Record_Start_Date r = Some v \<Longrightarrow>
   (\<forall>r' \<in> set earlier. NHS_Number r' = Some k \<longrightarrow>
          (case Record_Start_Date r' of None \<Rightarrow> True | Some w \<Rightarrow> w < v)) \<Longrightarrow>
   Some k \<in> NHS_Number ` set (keep_most_recent earlier xs)"
proof (induction xs arbitrary: earlier r v)
  case Nil
  then show ?case by simp
next
  case (Cons x xs)
  let ?beats = "\<lambda>v E. \<forall>r' \<in> set E. NHS_Number r' = Some k \<longrightarrow>
          (case Record_Start_Date r' of None \<Rightarrow> True | Some w \<Rightarrow> w < v)"
  show ?case
  proof (cases "first_most_recent earlier x xs \<and> NHS_Number x = Some k")
    case True
    then show ?thesis by force
  next
    case False
    have "\<exists>r2 v2. r2 \<in> set xs \<and> NHS_Number r2 = Some k \<and> Record_Start_Date r2 = Some v2 \<and> ?beats v2 (earlier @ [x])"
    proof (cases "NHS_Number x = Some k")
      case nk: False
      with Cons.prems have "r \<in> set xs" by auto
      with Cons.prems nk show ?thesis by (intro exI[of _ r] exI[of _ v]) auto
    next
      case k: True
      with False have nf: "\<not> first_most_recent earlier x xs" by simp
      show ?thesis
      proof (cases "Record_Start_Date x")
        case None
        with Cons.prems have "r \<in> set xs" by auto
        with Cons.prems None show ?thesis by (intro exI[of _ r] exI[of _ v]) auto
      next
        case (Some vx)
        show ?thesis
        proof (cases "vx < v")
          case True
          with Cons.prems Some have "r \<in> set xs" by auto
          with Cons.prems Some True show ?thesis by (intro exI[of _ r] exI[of _ v]) auto
        next
          case nlt: False
          then have le: "v \<le> vx" by simp
          have bx: "?beats vx earlier"
            using Cons.prems(4) le by (auto split: option.splits)
          with nf k Some obtain r2 v2 where r2: "r2 \<in> set xs" "NHS_Number r2 = Some k"
            "Record_Start_Date r2 = Some v2" "vx < v2"
            unfolding first_most_recent_def by (auto split: option.splits)
          have "?beats v2 (earlier @ [x])"
            using bx r2(4) Some by (auto split: option.splits)
          with r2 show ?thesis by blast
        qed
      qed
    qed
    then obtain r2 v2 where "r2 \<in> set xs" "NHS_Number r2 = Some k" "Record_Start_Date r2 = Some v2"
      "?beats v2 (earlier @ [x])" by blast
    from Cons.IH[OF this] show ?thesis by auto
  qed
qed

section \<open>Row-wise reading of the filters\<close>

lemma slice_eq:
  "slice_ndop_by_month df d =
     map (\<lambda>r. r\<lparr>ACH_DATE := Some d\<rparr>)
       (filter (\<lambda>r. (\<exists>s. Record_Start_Date r = Some s \<and> s \<le> d) \<and>
                     (Record_End_Date r = None \<or> (\<exists>e. Record_End_Date r = Some e \<and> d \<le> e))) df)"
  unfolding slice_ndop_by_month_def series_le_col series_ge_col isna_col mask_or_map mask_and_map loc_mask_map
  by (rule arg_cong[where f="map _"], rule filter_cong) (auto split: option.splits)

lemma living_eq:
  "filter_living_patients df d =
     filter (\<lambda>r. DATE_OF_DEATH r = None \<or> (\<exists>x. DATE_OF_DEATH r = Some x \<and> d < x)) df"
  unfolding filter_living_patients_def Let_def series_gt_col isna_col mask_or_map loc_mask_map
  by (rule filter_cong) (auto split: option.splits)

lemma deceased_eq:
  "filter_deceased_patients df d =
     filter (\<lambda>r. \<exists>x. DATE_OF_DEATH r = Some x \<and> x \<le> d) df"
  unfolding filter_deceased_patients_def series_le_col loc_mask_map
  by (rule filter_cong) (auto split: option.splits)

lemmas eval_defs = process_active_ndop_records_def process_deceased_ndop_records_def
  slice_ndop_by_month_def filter_living_patients_def filter_deceased_patients_def
  retrieve_most_recent_record_def groupby_rank_first_desc_def rank_of_def col_def
  series_le_def series_ge_def series_gt_def isna_def mask_and_def mask_or_def loc_mask_def

lemma slice_start: "r \<in> set (slice_ndop_by_month df d) \<Longrightarrow> \<exists>s. Record_Start_Date r = Some s"
  by (auto simp: slice_eq)


lemma retrieve_subset: "set (retrieve_most_recent_record t) \<subseteq> set t"
  by (simp add: retrieve_keep keep_set)

section \<open>Death partition\<close>

text \<open>
  Claim C4. A record passes the deceased filter exactly when its date of death is present
  and on or before the snapshot date, and passes the living filter exactly when its date
  of death is null or after the snapshot date. Patient B, who died on 2022-06-01, is
  resolved as living at the snapshot 2022-05-01 and as deceased at the snapshot 2022-07-01.
\<close>

theorem death_partition_boundary:
  "filter_deceased_patients df d = filter (\<lambda>r. \<exists>x. DATE_OF_DEATH r = Some x \<and> x \<le> d) df
   \<and> filter_living_patients df d =
       filter (\<lambda>r. DATE_OF_DEATH r = None \<or> (\<exists>x. DATE_OF_DEATH r = Some x \<and> d < x)) df
   \<and> process_active_ndop_records [patient_B] (2022, 5, 1) = [patient_B\<lparr>ACH_DATE := Some (2022, 5, 1)\<rparr>]
   \<and> process_deceased_ndop_records [patient_B] (2022, 5, 1) = []
   \<and> process_active_ndop_records [patient_B] (2022, 7, 1) = []
   \<and> process_deceased_ndop_records [patient_B] (2022, 7, 1) = [patient_B\<lparr>ACH_DATE := Some (2022, 7, 1)\<rparr>]"
proof -
  have a: "process_active_ndop_records [patient_B] (2022, 5, 1) = [patient_B\<lparr>ACH_DATE := Some (2022, 5, 1)\<rparr>]"
    by (simp add: patient_B_def eval_defs)
  have b: "process_deceased_ndop_records [patient_B] (2022, 5, 1) = []"
    by (simp add: patient_B_def eval_defs)
  have c: "process_active_ndop_records [patient_B] (2022, 7, 1) = []"
    by (simp add: patient_B_def eval_defs)
  have e: "process_deceased_ndop_records [patient_B] (2022, 7, 1) = [patient_B\<lparr>ACH_DATE := Some (2022, 7, 1)\<rparr>]"
    by (simp add: patient_B_def eval_defs)
  show ?thesis using a b c e deceased_eq living_eq by simp
qed

theorem death_partition_boundary_witness:
  "filter_deceased_patients [patient_B] (2022, 6, 1) = [patient_B]
   \<and> filter_living_patients [patient_B] (2022, 6, 1) = []
   \<and> filter_living_patients [patient_B] (2022, 5, 31) = [patient_B]"
  using death_partition_boundary[of "[patient_B]" "(2022, 6, 1)"]
        death_partition_boundary[of "[patient_B]" "(2022, 5, 31)"]
  by (simp add: patient_B_def)

section \<open>Active-record filter\<close>

text \<open>
  Claim C5. \<open>slice_ndop_by_month\<close> keeps, in their order, exactly the rows whose start date
  is on or before the snapshot date and whose end date is null or on or after it; every
  kept row is unchanged but for \<open>ACH_DATE\<close>, which holds the snapshot date.
\<close>

theorem slice_ndop_by_month_active_filter:
  "slice_ndop_by_month df d =
     map (\<lambda>r. r\<lparr>ACH_DATE := Some d\<rparr>)
       (filter (\<lambda>r. (\<exists>s. Record_Start_Date r = Some s \<and> s \<le> d) \<and>
                     (Record_End_Date r = None \<or> (\<exists>e. Record_End_Date r = Some e \<and> d \<le> e))) df)"
  by (rule slice_eq)

theorem slice_ndop_by_month_active_filter_witness:
  "slice_ndop_by_month handover_versions (2022, 6, 1) = map (\<lambda>r. r\<lparr>ACH_DATE := Some (2022, 6, 1)\<rparr>) handover_versions
   \<and> slice_ndop_by_month handover_versions (2022, 6, 2) = map (\<lambda>r. r\<lparr>ACH_DATE := Some (2022, 6, 2)\<rparr>) (tl handover_versions)
   \<and> slice_ndop_by_month handover_versions (2019, 12, 31) = []"
  using slice_ndop_by_month_active_filter[of handover_versions "(2022, 6, 1)"]
        slice_ndop_by_month_active_filter[of handover_versions "(2022, 6, 2)"]
        slice_ndop_by_month_active_filter[of handover_versions "(2019, 12, 31)"]
  by (simp add: handover_versions_def)

section \<open>Resolution keeps one record per patient\<close>

text \<open>
  Claim C2. After the active slice, \<open>retrieve_most_recent_record\<close> returns rows of the slice
  in their order, at most one per patient identifier; the row kept for a patient has the
  latest start date among the patient's rows in the slice, and among the rows that tie on
  that date it is the first one; every patient with an identifier in the slice keeps a row.
\<close>

theorem resolution_most_recent_wins:
  "distinct (map NHS_Number (retrieve_most_recent_record (slice_ndop_by_month df d)))
   \<and> subseq (retrieve_most_recent_record (slice_ndop_by_month df d)) (slice_ndop_by_month df d)
   \<and> (\<forall>r \<in> set (retrieve_most_recent_record (slice_ndop_by_month df d)).
        \<exists>k v. NHS_Number r = Some k \<and> Record_Start_Date r = Some v \<and>
          (\<forall>r' \<in> set (slice_ndop_by_month df d). NHS_Number r' = Some k \<longrightarrow>
             (\<exists>w. Record_Start_Date r' = Some w \<and> w \<le> v)))
   \<and> (\<forall>r \<in> set (retrieve_most_recent_record (slice_ndop_by_month df d)).
        find (\<lambda>r'. NHS_Number r' = NHS_Number r \<and> Record_Start_Date r' = Record_Start_Date r)
          (slice_ndop_by_month df d) = Some r)
   \<and> (\<forall>r' \<in> set (slice_ndop_by_month df d). NHS_Number r' \<noteq> None \<longrightarrow>
        NHS_Number r' \<in> NHS_Number ` set (retrieve_most_recent_record (slice_ndop_by_month df d)))"
proof -
  let ?a = "slice_ndop_by_month df d"
  have 1: "distinct (map NHS_Number (retrieve_most_recent_record ?a))"
    by (simp add: retrieve_keep keep_distinct)
  have 2: "subseq (retrieve_most_recent_record ?a) ?a"
    by (simp add: retrieve_keep keep_subseq)
  have 3: "\<exists>k v. NHS_Number r = Some k \<and> Record_Start_Date r = Some v \<and>
          (\<forall>r' \<in> set ?a. NHS_Number r' = Some k \<longrightarrow> (\<exists>w. Record_Start_Date r' = Some w \<and> w \<le> v))"
    if "r \<in> set (retrieve_most_recent_record ?a)" for r
  proof -
    from that have "r \<in> set (keep_most_recent [] ?a)" by (simp add: retrieve_keep)
    from keep_mem[OF this] obtain k v where kv: "NHS_Number r = Some k" "Record_Start_Date r = Some v"
      and l: "\<forall>r' \<in> set ?a. NHS_Number r' = Some k \<longrightarrow>
          (case Record_Start_Date r' of None \<Rightarrow> True | Some w \<Rightarrow> w \<le> v)" by blast
    have "\<exists>w. Record_Start_Date r' = Some w \<and> w \<le> v" if "r' \<in> set ?a" "NHS_Number r' = Some k" for r'
    proof -
      from slice_start[OF that(1)] obtain w where w: "Record_Start_Date r' = Some w" by blast
      from l that have "case Record_Start_Date r' of None \<Rightarrow> True | Some w \<Rightarrow> w \<le> v" by blast
      with w show ?thesis by simp
    qed
    then have "\<forall>r' \<in> set ?a. NHS_Number r' = Some k \<longrightarrow> (\<exists>w. Record_Start_Date r' = Some w \<and> w \<le> v)"
      by blast
    with kv show ?thesis by (intro exI[of _ k] exI[of _ v] conjI)
  qed
  have 4: "find (\<lambda>r'. NHS_Number r' = NHS_Number r \<and> Record_Start_Date r' = Record_Start_Date r) ?a = Some r"
    if "r \<in> set (retrieve_most_recent_record ?a)" for r
    using keep_find[of r "[]" ?a] that by (simp add: retrieve_keep)
  have 5: "NHS_Number r' \<in> NHS_Number ` set (retrieve_most_recent_record ?a)"
    if "r' \<in> set ?a" "NHS_Number r' \<noteq> None" for r'
  proof -
    from that(2) obtain k where k: "NHS_Number r' = Some k" by auto
    from slice_start[OF that(1)] obtain s where s: "Record_Start_Date r' = Some s" by auto
    from keep_exists[OF that(1) k s, of "[]"] show ?thesis by (simp add: retrieve_keep k)
  qed
  show ?thesis
  proof (intro conjI ballI impI)
    show "distinct (map NHS_Number (retrieve_most_recent_record ?a))" by (rule 1)
    show "subseq (retrieve_most_recent_record ?a) ?a" by (rule 2)
  qed (rule 3 4 5; assumption)+
qed

theorem resolution_most_recent_wins_witness:
  "retrieve_most_recent_record (slice_ndop_by_month patient_A_versions (2022, 3, 1))
     = [(patient_A_versions ! 1)\<lparr>ACH_DATE := Some (2022, 3, 1)\<rparr>]
   \<and> distinct (map NHS_Number (retrieve_most_recent_record (slice_ndop_by_month patient_A_versions (2022, 3, 1))))
   \<and> find (\<lambda>r'. NHS_Number r' = NHS_Number (patient_A_versions ! 1)
               \<and> Record_Start_Date r' = Record_Start_Date (patient_A_versions ! 1))
        (slice_ndop_by_month patient_A_versions (2022, 3, 1))
       = Some ((patient_A_versions ! 1)\<lparr>ACH_DATE := Some (2022, 3, 1)\<rparr>)"
proof -
  let ?res = "retrieve_most_recent_record (slice_ndop_by_month patient_A_versions (2022, 3, 1))"
  let ?x = "(patient_A_versions ! 1)\<lparr>ACH_DATE := Some (2022, 3, 1)\<rparr>"
  have e: "?res = [?x]"
    by (simp add: patient_A_versions_def eval_defs)
  note t = resolution_most_recent_wins[of patient_A_versions "(2022, 3, 1)"]
  from t have d: "distinct (map NHS_Number ?res)" by (rule conjunct1)
  from t have "\<forall>r \<in> set ?res.
        find (\<lambda>r'. NHS_Number r' = NHS_Number r \<and> Record_Start_Date r' = Record_Start_Date r)
          (slice_ndop_by_month patient_A_versions (2022, 3, 1)) = Some r"
    by (elim conjE)
  then have "find (\<lambda>r'. NHS_Number r' = NHS_Number ?x \<and> Record_Start_Date r' = Record_Start_Date ?x)
          (slice_ndop_by_month patient_A_versions (2022, 3, 1)) = Some ?x"
    unfolding e by simp
  then have f: "find (\<lambda>r'. NHS_Number r' = NHS_Number (patient_A_versions ! 1)
               \<and> Record_Start_Date r' = Record_Start_Date (patient_A_versions ! 1))
        (slice_ndop_by_month patient_A_versions (2022, 3, 1)) = Some ?x"
    by simp
  from e d f show ?thesis by (intro conjI)
qed

section \<open>Living and deceased partitions\<close>




section \<open>Identifier cleaning\<close>

lemma mask_not_map: "mask_not (map p xs) = map (\<lambda>x. \<not> p x) xs"
  by (simp add: mask_not_def)

lemma series_isin_col:
  "series_isin (col f df) xs = map (\<lambda>r. case f r of None \<Rightarrow> False | Some x \<Rightarrow> x \<in> set xs) df"
  by (simp add: series_isin_def col_def)

lemma starting_with_9_mask:
  "series_ne (str_get0 (col NHS_Number df)) (CHR ''9'')
     = map (\<lambda>r. case NHS_Number r of None \<Rightarrow> True | Some [] \<Rightarrow> True | Some (c # _) \<Rightarrow> c \<noteq> CHR ''9'') df"
  by (auto simp: series_ne_def str_get0_def col_def split: option.splits list.splits)

lemma remove_steps:
  "remove_nhs_number_which_are_null
     (remove_nhs_number_starting_with_9 (remove_nhs_number_which_are_invalid df))
   = filter (\<lambda>r. valid_nhs_number (NHS_Number r)) df"
  unfolding remove_nhs_number_which_are_null_def remove_nhs_number_starting_with_9_def
    remove_nhs_number_which_are_invalid_def series_isin_col mask_not_map loc_mask_map
    starting_with_9_mask notna_col filter_filter
  by (rule filter_cong) (auto simp: valid_nhs_number_def split: option.splits list.splits)

text \<open>
  Claim C10. \<open>clean_nhs_numbers\<close> removes exactly the records whose \<open>NHS_Number\<close> is null,
  begins with the character 9 or is one of the nine listed invalid numbers; it keeps every
  other record, in order, with null practice, area and gender cells filled; no removed
  identifier reaches the living or deceased result of any snapshot date.
\<close>

theorem clean_nhs_numbers_removes_invalid_identifiers:
  "clean_nhs_numbers df =
     map (\<lambda>r. r\<lparr>GP_PRACTICE := fillna ''Unallocated'' (GP_PRACTICE r),
                  LSOA_CODE := fillna ''Unallocated'' (LSOA_CODE r),
                  GENDER := fillna ''Unknown / Prefer not to say'' (GENDER r)\<rparr>)
       (filter (\<lambda>r. \<exists>n. NHS_Number r = Some n \<and> \<not> (\<exists>t. n = CHR ''9'' # t)
                        \<and> n \<notin> set INVALID_NHS_NUMBERS) df)
   \<and> map NHS_Number (clean_nhs_numbers df) =
       filter (\<lambda>v. \<exists>n. v = Some n \<and> \<not> (\<exists>t. n = CHR ''9'' # t) \<and> n \<notin> set INVALID_NHS_NUMBERS)
         (map NHS_Number df)
   \<and> (\<forall>r \<in> set (process_active_ndop_records (clean_nhs_numbers df) d)
             \<union> set (process_deceased_ndop_records (clean_nhs_numbers df) d).
        \<exists>n. NHS_Number r = Some n \<and> \<not> (\<exists>t. n = CHR ''9'' # t) \<and> n \<notin> set INVALID_NHS_NUMBERS)"
proof -
  let ?ok = "\<lambda>v. \<exists>n. v = Some n \<and> \<not> (\<exists>t. n = CHR ''9'' # t) \<and> n \<notin> set INVALID_NHS_NUMBERS"
  have v: "valid_nhs_number v = ?ok v" for v
    by (auto simp: valid_nhs_number_def split: option.splits list.splits)
  have 1: "clean_nhs_numbers df =
     map (\<lambda>r. r\<lparr>GP_PRACTICE := fillna ''Unallocated'' (GP_PRACTICE r),
                  LSOA_CODE := fillna ''Unallocated'' (LSOA_CODE r),
                  GENDER := fillna ''Unknown / Prefer not to say'' (GENDER r)\<rparr>)
       (filter (\<lambda>r. ?ok (NHS_Number r)) df)"
    unfolding clean_nhs_numbers_def remove_steps v
    by (simp add: fill_empty_gender_column_values_def fill_empty_categorical_column_values_def)
  have 2: "map NHS_Number (clean_nhs_numbers df) = filter ?ok (map NHS_Number df)"
    unfolding 1 by (simp add: filter_map comp_def)
  have 3: "?ok (NHS_Number r)"
    if r: "r \<in> set (process_active_ndop_records (clean_nhs_numbers df) d)
             \<union> set (process_deceased_ndop_records (clean_nhs_numbers df) d)" for r
  proof -
    let ?c = "clean_nhs_numbers df"
    have "set (process_active_ndop_records ?c d) \<subseteq> set (slice_ndop_by_month ?c d)"
      unfolding process_active_ndop_records_def living_eq
      using retrieve_subset[of "filter_living_patients (slice_ndop_by_month ?c d) d"]
      by (auto simp: living_eq)
    moreover have "set (process_deceased_ndop_records ?c d) \<subseteq> set (slice_ndop_by_month ?c d)"
      unfolding process_deceased_ndop_records_def
      using retrieve_subset[of "filter_deceased_patients (slice_ndop_by_month ?c d) d"]
      by (auto simp: deceased_eq)
    ultimately have "r \<in> set (slice_ndop_by_month ?c d)" using r by blast
    then obtain r0 where r0: "r0 \<in> set ?c" "NHS_Number r = NHS_Number r0"
      unfolding slice_eq by auto
    from r0(1) have "NHS_Number r0 \<in> set (map NHS_Number ?c)" by simp
    then have "?ok (NHS_Number r0)" unfolding 2 by simp
    with r0(2) show ?thesis by simp
  qed
  show ?thesis
    by (intro conjI ballI 1 2) (rule 3)
qed

theorem clean_nhs_numbers_removes_invalid_identifiers_witness:
  "map NHS_Number (clean_nhs_numbers identifier_samples) = [Some ''4000000004'']
   \<and> map GENDER (clean_nhs_numbers identifier_samples) = [Some ''Unknown / Prefer not to say'']
   \<and> map GP_PRACTICE (clean_nhs_numbers identifier_samples) = [Some ''Unallocated'']
   \<and> map NHS_Number (process_active_ndop_records (clean_nhs_numbers identifier_samples) (2022, 6, 1))
       = [Some ''4000000004'']"
proof -
  note t = clean_nhs_numbers_removes_invalid_identifiers[of identifier_samples "(2022, 6, 1)"]
  from t have "clean_nhs_numbers identifier_samples =
     map (\<lambda>r. r\<lparr>GP_PRACTICE := fillna ''Unallocated'' (GP_PRACTICE r),
                  LSOA_CODE := fillna ''Unallocated'' (LSOA_CODE r),
                  GENDER := fillna ''Unknown / Prefer not to say'' (GENDER r)\<rparr>)
       (filter (\<lambda>r. \<exists>n. NHS_Number r = Some n \<and> \<not> (\<exists>t. n = CHR ''9'' # t)
                        \<and> n \<notin> set INVALID_NHS_NUMBERS) identifier_samples)"
    by (rule conjunct1)
  then have 1: "map NHS_Number (clean_nhs_numbers identifier_samples) = [Some ''4000000004'']
   \<and> map GENDER (clean_nhs_numbers identifier_samples) = [Some ''Unknown / Prefer not to say'']
   \<and> map GP_PRACTICE (clean_nhs_numbers identifier_samples) = [Some ''Unallocated'']"
    by (simp add: identifier_samples_def INVALID_NHS_NUMBERS_def fillna_def)
  have 2: "map NHS_Number (process_active_ndop_records (clean_nhs_numbers identifier_samples) (2022, 6, 1))
       = [Some ''4000000004'']"
    by code_simp
  from 1 2 show ?thesis by simp
qed

section \<open>Reporting window\<close>






















lemmas date_eval_defs = new_reportDates_def get_report_period_start_date_def
      get_reporting_months_list_def to_datetime_def valid_date_def in_timestamp_bounds_def
      sub_months_def date_range_MS_def month_index_def month_start_def days_in_month_def
      is_leap_year_def year_def month_def day_def Let_def




section \<open>Counting by group\<close>

lemma length_filter_disj:
  "(\<forall>x \<in> set xs. \<not> (P x \<and> Q x)) \<Longrightarrow>
     length (filter P xs) + length (filter Q xs) = length (filter (\<lambda>x. P x \<or> Q x) xs)"
  by (induction xs) auto

lemma sum_group_counts:
  "distinct ks \<Longrightarrow>
     sum_list (map (\<lambda>k. length (filter (\<lambda>r. g r = k \<and> Q r) xs)) ks)
       = length (filter (\<lambda>r. g r \<in> set ks \<and> Q r) xs)"
proof (induction ks)
  case Nil
  then show ?case by simp
next
  case (Cons k ks)
  then have k: "k \<notin> set ks" and d: "distinct ks" by simp_all
  have "length (filter (\<lambda>r. g r = k \<and> Q r) xs) + length (filter (\<lambda>r. g r \<in> set ks \<and> Q r) xs)
      = length (filter (\<lambda>r. (g r = k \<and> Q r) \<or> (g r \<in> set ks \<and> Q r)) xs)"
    using k by (intro length_filter_disj) auto
  also have "\<dots> = length (filter (\<lambda>r. g r \<in> set (k # ks) \<and> Q r) xs)"
    by (rule arg_cong[where f=length], rule filter_cong) auto
  finally show ?case using Cons.IH[OF d] by simp
qed

lemma groupby_groups_set:
  "set (groupby_groups cols df) = group_key cols ` {r \<in> set df. \<not> has_null_key cols r}"
  by (auto simp: groupby_groups_def)

lemma groupby_groups_distinct: "distinct (groupby_groups cols df)"
  by (simp add: groupby_groups_def)

lemma group_key_ACH_DATE:
  "Col_ACH_DATE \<in> set cols \<Longrightarrow> ACH_DATE (group_key cols r) = ACH_DATE r"
  by (simp add: group_key_def)

lemma aggregate_Inr:
  assumes "cols \<noteq> []" "distinct cols"
  shows "aggregate_ndop_by_measure df cols fill_value =
     Inr (map (\<lambda>k. \<lparr>ACH_DATE = ACH_DATE k, AGE_BAND = fillna fill_value (AGE_BAND k),
                      GENDER = fillna fill_value (GENDER k),
                      OPT_OUT = length (filter (\<lambda>r. group_key cols r = k \<and>
                                   (\<not> has_null_key cols r \<and> NHS_Number r \<noteq> None)) df)\<rparr>)
            (groupby_groups cols df))"
proof -
  have "filter (\<lambda>r. NHS_Number r \<noteq> None) (group_rows cols k df)
      = filter (\<lambda>r. group_key cols r = k \<and> (\<not> has_null_key cols r \<and> NHS_Number r \<noteq> None)) df" for k
    unfolding group_rows_def filter_filter by (rule filter_cong) auto
  then show ?thesis
    using assms
    by (simp add: aggregate_ndop_by_measure_def groupby_count_NHS_Number_def
        add_age_or_gender_columns_def comp_def)
qed

lemma opt_out_total_aggregate:
  assumes "Col_ACH_DATE \<in> set cols" "distinct cols"
    and "aggregate_ndop_by_measure df cols fill_value = Inr agg"
  shows "opt_out_total d agg =
     length (filter (\<lambda>r. ACH_DATE r = Some d \<and> \<not> has_null_key cols r \<and> NHS_Number r \<noteq> None) df)"
proof -
  from assms(1) have ne: "cols \<noteq> []" by auto
  let ?Q = "\<lambda>r. \<not> has_null_key cols r \<and> NHS_Number r \<noteq> None"
  let ?ks = "filter (\<lambda>k. ACH_DATE k = Some d) (groupby_groups cols df)"
  from assms(3) have agg: "agg = map (\<lambda>k. \<lparr>ACH_DATE = ACH_DATE k, AGE_BAND = fillna fill_value (AGE_BAND k),
                      GENDER = fillna fill_value (GENDER k),
                      OPT_OUT = length (filter (\<lambda>r. group_key cols r = k \<and> ?Q r) df)\<rparr>)
            (groupby_groups cols df)"
    unfolding aggregate_Inr[OF ne assms(2)] by simp
  have "opt_out_total d agg
      = sum_list (map (\<lambda>k. length (filter (\<lambda>r. group_key cols r = k \<and> ?Q r) df)) ?ks)"
    unfolding opt_out_total_def agg by (simp add: filter_map comp_def)
  also have "\<dots> = length (filter (\<lambda>r. group_key cols r \<in> set ?ks \<and> ?Q r) df)"
    by (rule sum_group_counts) (simp add: groupby_groups_distinct)
  also have "\<dots> = length (filter (\<lambda>r. ACH_DATE r = Some d \<and> ?Q r) df)"
    by (rule arg_cong[where f=length], rule filter_cong)
       (auto simp: groupby_groups_set group_key_ACH_DATE[OF assms(1)])
  finally show ?thesis by simp
qed






lemmas agg_eval_defs = create_df_list_for_age_gen_csv_def aggregate_ndop_by_measure_def
  groupby_count_NHS_Number_def add_age_or_gender_columns_def groupby_groups_def group_rows_def
  group_key_def has_null_key_def NDOP_MEASURES_def NDOP_DECEASED_MEASURES_def opt_out_total_def
  fillna_def



section \<open>Reconciliation of the breakdowns\<close>

lemma length_filter_split:
  "length (filter P xs) = length (filter (\<lambda>x. P x \<and> Q x) xs) + length (filter (\<lambda>x. P x \<and> \<not> Q x) xs)"
  by (induction xs) auto

lemma create_df_list_NDOP_MEASURES:
  "\<exists>dag dg da dt.
     create_df_list_for_age_gen_csv df NDOP_MEASURES fill_value = Inr [dag, dg, da, dt]
     \<and> aggregate_ndop_by_measure df [Col_ACH_DATE, Col_AGE_BAND, Col_GENDER] fill_value = Inr dag
     \<and> aggregate_ndop_by_measure df [Col_ACH_DATE, Col_GENDER] fill_value = Inr dg
     \<and> aggregate_ndop_by_measure df [Col_ACH_DATE, Col_AGE_BAND] fill_value = Inr da
     \<and> aggregate_ndop_by_measure df [Col_ACH_DATE] fill_value = Inr dt"
proof -
  obtain dag where 1: "aggregate_ndop_by_measure df [Col_ACH_DATE, Col_AGE_BAND, Col_GENDER] fill_value = Inr dag"
    using aggregate_Inr[of "[Col_ACH_DATE, Col_AGE_BAND, Col_GENDER]" df fill_value] by simp
  obtain dg where 2: "aggregate_ndop_by_measure df [Col_ACH_DATE, Col_GENDER] fill_value = Inr dg"
    using aggregate_Inr[of "[Col_ACH_DATE, Col_GENDER]" df fill_value] by simp
  obtain da where 3: "aggregate_ndop_by_measure df [Col_ACH_DATE, Col_AGE_BAND] fill_value = Inr da"
    using aggregate_Inr[of "[Col_ACH_DATE, Col_AGE_BAND]" df fill_value] by simp
  obtain dt where 4: "aggregate_ndop_by_measure df [Col_ACH_DATE] fill_value = Inr dt"
    using aggregate_Inr[of "[Col_ACH_DATE]" df fill_value] by simp
  have "create_df_list_for_age_gen_csv df NDOP_MEASURES fill_value = Inr [dag, dg, da, dt]"
    by (simp add: create_df_list_for_age_gen_csv_def NDOP_MEASURES_def 1 2 3 4)
  with 1 2 3 4 show ?thesis by blast
qed

text \<open>
  Claim C1, as stated, fails on a table with a null age band: the group-by drops the row
  from the breakdown by date and age band and keeps it in the total by date. The four
  totals of 2022-06-01 below are those of the breakdowns by date, age band and gender,
  by date and gender, by date and age band, and by date.
\<close>

theorem reconciliation_null_age_band_counterexample:
  "new_reportDates (2022, 6, 1) (2022, 7, 7) 0 = Inr june_reportDates
   \<and> concatenate_ndop_monthly_records process_active_ndop_records
        (clean_nhs_numbers null_age_table) june_reportDates = Inr null_age_living
   \<and> map_sum id (map (opt_out_total (2022, 6, 1)))
        (create_df_list_for_age_gen_csv null_age_living NDOP_MEASURES ''All'') = Inr [1, 2, 1, 2]"
proof -
  have 1: "new_reportDates (2022, 6, 1) (2022, 7, 7) 0 = Inr june_reportDates"
    by (simp add: june_reportDates_def date_eval_defs)
  have 2: "concatenate_ndop_monthly_records process_active_ndop_records
        (clean_nhs_numbers null_age_table) june_reportDates = Inr null_age_living"
    by (simp add: concatenate_ndop_monthly_records_def pd_concat_def june_reportDates_def date_eval_defs
       null_age_living_def null_age_table_def eval_defs clean_nhs_numbers_def
       fill_empty_gender_column_values_def fill_empty_categorical_column_values_def
       remove_nhs_number_which_are_null_def remove_nhs_number_starting_with_9_def
       remove_nhs_number_which_are_invalid_def series_isin_def series_ne_def str_get0_def
       mask_not_def notna_def INVALID_NHS_NUMBERS_def fillna_def)
  have 3: "map_sum id (map (opt_out_total (2022, 6, 1)))
        (create_df_list_for_age_gen_csv null_age_living NDOP_MEASURES ''All'') = Inr [1, 2, 1, 2]"
    by (simp add: null_age_living_def null_age_table_def agg_eval_defs)
  from 1 2 3 show ?thesis by (intro conjI)
qed

text \<open>
  Claim C1, amended. For every table and every snapshot date, the count of the breakdown
  by date exceeds the sum of the counts by date and gender by the number of identified
  rows of that date with a null gender, and the sum by date and age band by the number
  with a null age band. So on every table without a null gender the totals by date and
  by date and gender agree, and on every table without a null age band the totals by
  date and by date and age band agree.
\<close>

theorem cross_breakdown_reconciliation:
  "\<exists>dag dg da dt.
     create_df_list_for_age_gen_csv df NDOP_MEASURES fill_value = Inr [dag, dg, da, dt]
     \<and> opt_out_total d dt = opt_out_total d dg
          + length (filter (\<lambda>r. ACH_DATE r = Some d \<and> NHS_Number r \<noteq> None \<and> GENDER r = None) df)
     \<and> opt_out_total d dt = opt_out_total d da
          + length (filter (\<lambda>r. ACH_DATE r = Some d \<and> NHS_Number r \<noteq> None \<and> AGE_BAND r = None) df)
     \<and> ((\<forall>r \<in> set df. GENDER r \<noteq> None) \<longrightarrow> opt_out_total d dg = opt_out_total d dt)
     \<and> ((\<forall>r \<in> set df. AGE_BAND r \<noteq> None) \<longrightarrow> opt_out_total d da = opt_out_total d dt)
     \<and> ((\<forall>r \<in> set df. AGE_BAND r \<noteq> None \<and> GENDER r \<noteq> None) \<longrightarrow>
            opt_out_total d dag = opt_out_total d dt)"
proof -
  from create_df_list_NDOP_MEASURES[of df fill_value] obtain dag dg da dt where
    l: "create_df_list_for_age_gen_csv df NDOP_MEASURES fill_value = Inr [dag, dg, da, dt]"
    and a: "aggregate_ndop_by_measure df [Col_ACH_DATE, Col_AGE_BAND, Col_GENDER] fill_value = Inr dag"
      "aggregate_ndop_by_measure df [Col_ACH_DATE, Col_GENDER] fill_value = Inr dg"
      "aggregate_ndop_by_measure df [Col_ACH_DATE, Col_AGE_BAND] fill_value = Inr da"
      "aggregate_ndop_by_measure df [Col_ACH_DATE] fill_value = Inr dt"
    by blast
  let ?B = "\<lambda>r. ACH_DATE r = Some d \<and> NHS_Number r \<noteq> None"
  have tt: "opt_out_total d dt = length (filter ?B df)"
  proof -
    have "opt_out_total d dt = length (filter (\<lambda>r. ACH_DATE r = Some d
            \<and> \<not> has_null_key [Col_ACH_DATE] r \<and> NHS_Number r \<noteq> None) df)"
      by (rule opt_out_total_aggregate[OF _ _ a(4)]) simp_all
    also have "(\<lambda>r. ACH_DATE r = Some d \<and> \<not> has_null_key [Col_ACH_DATE] r \<and> NHS_Number r \<noteq> None) = ?B"
      by (rule ext) (auto simp: has_null_key_def simp del: not_None_eq)
    finally show ?thesis .
  qed
  have tg: "opt_out_total d dg = length (filter (\<lambda>r. ?B r \<and> GENDER r \<noteq> None) df)"
  proof -
    have "opt_out_total d dg = length (filter (\<lambda>r. ACH_DATE r = Some d
            \<and> \<not> has_null_key [Col_ACH_DATE, Col_GENDER] r \<and> NHS_Number r \<noteq> None) df)"
      by (rule opt_out_total_aggregate[OF _ _ a(2)]) simp_all
    also have "(\<lambda>r. ACH_DATE r = Some d \<and> \<not> has_null_key [Col_ACH_DATE, Col_GENDER] r
                  \<and> NHS_Number r \<noteq> None) = (\<lambda>r. ?B r \<and> GENDER r \<noteq> None)"
      by (rule ext) (auto simp: has_null_key_def simp del: not_None_eq)
    finally show ?thesis .
  qed
  have ta: "opt_out_total d da = length (filter (\<lambda>r. ?B r \<and> AGE_BAND r \<noteq> None) df)"
  proof -
    have "opt_out_total d da = length (filter (\<lambda>r. ACH_DATE r = Some d
            \<and> \<not> has_null_key [Col_ACH_DATE, Col_AGE_BAND] r \<and> NHS_Number r \<noteq> None) df)"
      by (rule opt_out_total_aggregate[OF _ _ a(3)]) simp_all
    also have "(\<lambda>r. ACH_DATE r = Some d \<and> \<not> has_null_key [Col_ACH_DATE, Col_AGE_BAND] r
                  \<and> NHS_Number r \<noteq> None) = (\<lambda>r. ?B r \<and> AGE_BAND r \<noteq> None)"
      by (rule ext) (auto simp: has_null_key_def simp del: not_None_eq)
    finally show ?thesis .
  qed
  have tag: "opt_out_total d dag
      = length (filter (\<lambda>r. ?B r \<and> (AGE_BAND r \<noteq> None \<and> GENDER r \<noteq> None)) df)"
  proof -
    have "opt_out_total d dag = length (filter (\<lambda>r. ACH_DATE r = Some d
            \<and> \<not> has_null_key [Col_ACH_DATE, Col_AGE_BAND, Col_GENDER] r \<and> NHS_Number r \<noteq> None) df)"
      by (rule opt_out_total_aggregate[OF _ _ a(1)]) simp_all
    also have "(\<lambda>r. ACH_DATE r = Some d \<and> \<not> has_null_key [Col_ACH_DATE, Col_AGE_BAND, Col_GENDER] r
                  \<and> NHS_Number r \<noteq> None) = (\<lambda>r. ?B r \<and> (AGE_BAND r \<noteq> None \<and> GENDER r \<noteq> None))"
      by (rule ext) (auto simp: has_null_key_def simp del: not_None_eq)
    finally show ?thesis .
  qed
  have 1: "opt_out_total d dt = opt_out_total d dg
          + length (filter (\<lambda>r. ACH_DATE r = Some d \<and> NHS_Number r \<noteq> None \<and> GENDER r = None) df)"
    unfolding tt tg using length_filter_split[of ?B df "\<lambda>r. GENDER r \<noteq> None"]
    by (simp add: conj_assoc del: not_None_eq)
  have 2: "opt_out_total d dt = opt_out_total d da
          + length (filter (\<lambda>r. ACH_DATE r = Some d \<and> NHS_Number r \<noteq> None \<and> AGE_BAND r = None) df)"
    unfolding tt ta using length_filter_split[of ?B df "\<lambda>r. AGE_BAND r \<noteq> None"]
    by (simp add: conj_assoc del: not_None_eq)
  have 3: "(\<forall>r \<in> set df. GENDER r \<noteq> None) \<longrightarrow> opt_out_total d dg = opt_out_total d dt"
    unfolding tt tg by (intro impI arg_cong[where f=length] filter_cong) auto
  have 4: "(\<forall>r \<in> set df. AGE_BAND r \<noteq> None) \<longrightarrow> opt_out_total d da = opt_out_total d dt"
    unfolding tt ta by (intro impI arg_cong[where f=length] filter_cong) auto
  have 5: "(\<forall>r \<in> set df. AGE_BAND r \<noteq> None \<and> GENDER r \<noteq> None) \<longrightarrow>
            opt_out_total d dag = opt_out_total d dt"
    unfolding tt tag by (intro impI arg_cong[where f=length] filter_cong) auto
  show ?thesis
    by (intro exI[of _ dag] exI[of _ dg] exI[of _ da] exI[of _ dt] conjI) (rule l 1 2 3 4 5)+
qed

theorem cross_breakdown_reconciliation_witness:
  "map_sum id (map (opt_out_total (2022, 6, 1)))
        (create_df_list_for_age_gen_csv known_age_living NDOP_MEASURES ''All'') = Inr [2, 2, 2, 2]
   \<and> (\<exists>dag dg da dt.
         create_df_list_for_age_gen_csv known_age_living NDOP_MEASURES ''All'' = Inr [dag, dg, da, dt]
         \<and> opt_out_total (2022, 6, 1) dg = opt_out_total (2022, 6, 1) dt
         \<and> opt_out_total (2022, 6, 1) da = opt_out_total (2022, 6, 1) dt)"
proof -
  have e: "map_sum id (map (opt_out_total (2022, 6, 1)))
        (create_df_list_for_age_gen_csv known_age_living NDOP_MEASURES ''All'') = Inr [2, 2, 2, 2]"
    by (simp add: known_age_living_def null_age_living_def null_age_table_def agg_eval_defs)
  have g: "\<forall>r \<in> set known_age_living. GENDER r \<noteq> None"
    by (simp add: known_age_living_def null_age_living_def null_age_table_def)
  have a: "\<forall>r \<in> set known_age_living. AGE_BAND r \<noteq> None"
    by (simp add: known_age_living_def null_age_living_def null_age_table_def fillna_def)
  from cross_breakdown_reconciliation[of known_age_living "''All''" "(2022, 6, 1)"]
  obtain dag dg da dt where
    l: "create_df_list_for_age_gen_csv known_age_living NDOP_MEASURES ''All'' = Inr [dag, dg, da, dt]"
    and ig: "(\<forall>r \<in> set known_age_living. GENDER r \<noteq> None) \<longrightarrow>
              opt_out_total (2022, 6, 1) dg = opt_out_total (2022, 6, 1) dt"
    and ia: "(\<forall>r \<in> set known_age_living. AGE_BAND r \<noteq> None) \<longrightarrow>
              opt_out_total (2022, 6, 1) da = opt_out_total (2022, 6, 1) dt"
    by blast
  from ig g have 1: "opt_out_total (2022, 6, 1) dg = opt_out_total (2022, 6, 1) dt" by (rule mp)
  from ia a have 2: "opt_out_total (2022, 6, 1) da = opt_out_total (2022, 6, 1) dt" by (rule mp)
  from l 1 2 have "\<exists>dag dg da dt.
         create_df_list_for_age_gen_csv known_age_living NDOP_MEASURES ''All'' = Inr [dag, dg, da, dt]
         \<and> opt_out_total (2022, 6, 1) dg = opt_out_total (2022, 6, 1) dt
         \<and> opt_out_total (2022, 6, 1) da = opt_out_total (2022, 6, 1) dt"
    by blast
  with e show ?thesis by (intro conjI)
qed

section \<open>Suppression of undisclosed gender\<close>

lemma series_eq_col: "series_eq (col f df) x = map (\<lambda>r. f r = Some x) df"
  by (simp add: series_eq_def col_def)

lemma suppress_mask:
  "mask_and (series_eq (col (GENDER \<circ> snd) df) ''Unknown / Prefer not to say'')
     (mask_not (series_isin (col (AGE_BAND \<circ> snd) df) [''All'', ''All deceased'']))
   = map (\<lambda>x. suppressed (snd x)) df"
  unfolding series_eq_col series_isin_col mask_not_map mask_and_map
  by (rule map_cong) (auto simp: suppressed_def split: option.splits)

lemma suppress_labels:
  "suppress_unknown_undisclosed_gender_rows df =
     filter (\<lambda>x. fst x \<notin> fst ` {y \<in> set df. suppressed (snd y)}) df"
  unfolding suppress_unknown_undisclosed_gender_rows_def Let_def suppress_mask loc_mask_map
  by (rule filter_cong) (auto simp: image_iff)

lemma suppress_distinct_index:
  assumes "distinct (map fst df)"
  shows "suppress_unknown_undisclosed_gender_rows df = filter (\<lambda>(i, r). \<not> suppressed r) df"
  unfolding suppress_labels
proof (rule filter_cong[OF refl])
  fix x assume x: "x \<in> set df"
  have "fst x \<in> fst ` {y \<in> set df. suppressed (snd y)} \<longleftrightarrow> suppressed (snd x)"
  proof
    assume "fst x \<in> fst ` {y \<in> set df. suppressed (snd y)}"
    then obtain y where y: "y \<in> set df" "suppressed (snd y)" "fst x = fst y" by auto
    from assms x y(1,3) have "x = y" by (meson distinct_map inj_onD)
    with y(2) show "suppressed (snd x)" by simp
  next
    assume "suppressed (snd x)"
    with x show "fst x \<in> fst ` {y \<in> set df. suppressed (snd y)}" by blast
  qed
  then show "(fst x \<notin> fst ` {y \<in> set df. suppressed (snd y)}) = (case x of (i, r) \<Rightarrow> \<not> suppressed r)"
    by (cases x) simp
qed

lemma enumerate_distinct_index: "distinct (map fst (enumerate n xs))"
  by (simp add: map_fst_enumerate)

lemma rate_pipeline_index: "distinct (map fst (rate_pipeline counts ls))"
  by (simp add: rate_pipeline_def convert_age_column_to_categorical_def
      convert_gender_column_to_categorical_def fill_list_size_and_opt_out_nan_values_def
      calculate_opt_out_rate_def merge_left_def comp_def case_prod_unfold map_fst_enumerate)

lemma in_enumerate: "x \<in> set xs \<Longrightarrow> \<exists>i. (i, x) \<in> set (enumerate n xs)"
proof -
  assume "x \<in> set xs"
  then obtain k where "k < length xs" "xs ! k = x" by (meson in_set_conv_nth)
  then have "(n + k, x) \<in> set (enumerate n xs)" by (simp add: in_set_enumerate_eq)
  then show ?thesis by blast
qed

lemma merge_left_covers:
  assumes "l \<in> set left"
  shows "\<exists>i v. (i, joined l v) \<in> set (merge_left left right)"
proof -
  let ?rows = "\<lambda>l. case filter (same_dims l) right of
                       [] \<Rightarrow> [joined l None]
                     | m # ms \<Rightarrow> map (\<lambda>r. joined l (LIST_SIZE' r)) (m # ms)"
  have "\<exists>v. joined l v \<in> set (?rows l)"
    by (cases "filter (same_dims l) right") auto
  then obtain v where "joined l v \<in> set (?rows l)" by blast
  with assms have "joined l v \<in> set (concat (map ?rows left))" by auto
  from in_enumerate[OF this, of 0] show ?thesis unfolding merge_left_def by blast
qed

lemma rate_pipeline_covers:
  assumes "l \<in> set counts" "GENDER l = Some ''Unknown / Prefer not to say''" "AGE_BAND l = Some ''All''"
  shows "\<exists>(i, r) \<in> set (rate_pipeline counts ls).
           ACH_DATE r = ACH_DATE l \<and> AGE_BAND r = Some ''All''
           \<and> GENDER r = Some ''Unknown / Prefer not to say'' \<and> OPT_OUT r = OPT_OUT l"
proof -
  from merge_left_covers[OF assms(1)] obtain i v where
    m: "(i, joined l v) \<in> set (merge_left counts ls)" by blast
  let ?f = "\<lambda>r :: merged_row. \<lparr>ACH_DATE = ACH_DATE r, AGE_BAND = AGE_BAND r, GENDER = GENDER r,
                          OPT_OUT = OPT_OUT r, LIST_SIZE = LIST_SIZE r,
                          OPT_OUT_RATE = times_100 (true_divide (OPT_OUT r) (LIST_SIZE r))\<rparr>"
  let ?g = "\<lambda>r :: age_gen_row. r\<lparr>OPT_OUT_RATE := (case OPT_OUT_RATE r of NaN \<Rightarrow> Finite 0 | x \<Rightarrow> x),
                            LIST_SIZE := fillna 0 (LIST_SIZE r)\<rparr>"
  let ?h = "\<lambda>r :: age_gen_row. r\<lparr>GENDER := astype_category GENDER_categories (GENDER r)\<rparr>"
  let ?k = "\<lambda>r :: age_gen_row. r\<lparr>AGE_BAND := astype_category AGE_BAND_categories (AGE_BAND r)\<rparr>"
  have eq: "rate_pipeline counts ls = map (\<lambda>(i, r). (i, ?k (?h (?g (?f r))))) (merge_left counts ls)"
    by (simp add: rate_pipeline_def convert_age_column_to_categorical_def
      convert_gender_column_to_categorical_def fill_list_size_and_opt_out_nan_values_def
      calculate_opt_out_rate_def comp_def case_prod_unfold)
  from m have "(i, ?k (?h (?g (?f (joined l v))))) \<in> set (rate_pipeline counts ls)"
    unfolding eq by force
  moreover have "ACH_DATE (?k (?h (?g (?f (joined l v))))) = ACH_DATE l"
    "AGE_BAND (?k (?h (?g (?f (joined l v))))) = Some ''All''"
    "GENDER (?k (?h (?g (?f (joined l v))))) = Some ''Unknown / Prefer not to say''"
    "OPT_OUT (?k (?h (?g (?f (joined l v))))) = OPT_OUT l"
    using assms(2,3)
    by (simp_all add: joined_def astype_category_def GENDER_categories_def AGE_BAND_categories_def)
  ultimately show ?thesis by blast
qed

lemma create_age_gen_csv_Inr:
  assumes "create_age_gen_csv ndop_df ndop_deceased_df list_size_df = Inr out"
  shows "\<exists>ndop_dfs ndop_deceased_dfs ls.
           create_df_list_for_age_gen_csv ndop_df NDOP_MEASURES ''All'' = Inr ndop_dfs
           \<and> create_df_list_for_age_gen_csv ndop_deceased_df NDOP_DECEASED_MEASURES ''All deceased''
               = Inr ndop_deceased_dfs
           \<and> list_size_for_age_gen_csv list_size_df = Inr ls
           \<and> out = sort_values (suppress_unknown_undisclosed_gender_rows
                      (rate_pipeline (concat (ndop_dfs @ ndop_deceased_dfs)) ls))"
  using assms
  by (auto simp: create_age_gen_csv_def rate_pipeline_def pd_concat_def split: sum.splits if_splits)

lemma set_sort_values: "set (sort_values df) = set df"
  by (simp add: sort_values_def)

lemma output_rows:
  assumes "create_age_gen_csv ndop_df ndop_deceased_df list_size_df = Inr out"
  shows "\<exists>ndop_dfs ndop_deceased_dfs ls.
           create_df_list_for_age_gen_csv ndop_df NDOP_MEASURES ''All'' = Inr ndop_dfs
           \<and> set out = {x \<in> set (rate_pipeline (concat (ndop_dfs @ ndop_deceased_dfs)) ls).
                         \<not> suppressed (snd x)}"
proof -
  from create_age_gen_csv_Inr[OF assms] obtain ndop_dfs ndop_deceased_dfs ls where
    a: "create_df_list_for_age_gen_csv ndop_df NDOP_MEASURES ''All'' = Inr ndop_dfs"
    and o: "out = sort_values (suppress_unknown_undisclosed_gender_rows
                      (rate_pipeline (concat (ndop_dfs @ ndop_deceased_dfs)) ls))"
    by blast
  have "set out = {x \<in> set (rate_pipeline (concat (ndop_dfs @ ndop_deceased_dfs)) ls).
                         \<not> suppressed (snd x)}"
    unfolding o set_sort_values suppress_distinct_index[OF rate_pipeline_index]
    by (auto simp: case_prod_unfold)
  with a show ?thesis by blast
qed

text \<open>
  Claim C7. On a frame with the fresh index that the join gives it,
  \<open>suppress_unknown_undisclosed_gender_rows\<close> removes exactly the rows whose gender is
  "Unknown / Prefer not to say" and whose age band is neither "All" nor "All deceased",
  and keeps every other row as it is. So in the output of \<open>create_age_gen_csv\<close> every row
  of undisclosed gender has one of those two age bands, and every row of undisclosed
  gender of the living breakdown by date and gender is there, with age band "All" and
  its count.
\<close>

theorem suppress_unknown_gender_rows_targeted:
  "suppress_unknown_undisclosed_gender_rows (enumerate 0 rows)
     = filter (\<lambda>(i, r). \<not> (GENDER r = Some ''Unknown / Prefer not to say''
                            \<and> AGE_BAND r \<noteq> Some ''All'' \<and> AGE_BAND r \<noteq> Some ''All deceased''))
         (enumerate 0 rows)
   \<and> (create_age_gen_csv ndop_df ndop_deceased_df list_size_df = Inr out \<longrightarrow>
        (\<forall>(i, r) \<in> set out. GENDER r = Some ''Unknown / Prefer not to say'' \<longrightarrow>
            AGE_BAND r = Some ''All'' \<or> AGE_BAND r = Some ''All deceased'')
        \<and> (\<forall>agg a. aggregate_ndop_by_measure ndop_df [Col_ACH_DATE, Col_GENDER] ''All'' = Inr agg
              \<and> a \<in> set agg \<and> GENDER a = Some ''Unknown / Prefer not to say'' \<longrightarrow>
              (\<exists>(i, r) \<in> set out. ACH_DATE r = ACH_DATE a \<and> AGE_BAND r = Some ''All''
                  \<and> GENDER r = Some ''Unknown / Prefer not to say'' \<and> OPT_OUT r = OPT_OUT a)))"
proof -
  have 1: "suppress_unknown_undisclosed_gender_rows (enumerate 0 rows)
     = filter (\<lambda>(i, r). \<not> (GENDER r = Some ''Unknown / Prefer not to say''
                            \<and> AGE_BAND r \<noteq> Some ''All'' \<and> AGE_BAND r \<noteq> Some ''All deceased''))
         (enumerate 0 rows)"
    using suppress_distinct_index[OF enumerate_distinct_index, of 0 rows]
    by (simp add: suppressed_def)
  have 2: "(\<forall>(i, r) \<in> set out. GENDER r = Some ''Unknown / Prefer not to say'' \<longrightarrow>
            AGE_BAND r = Some ''All'' \<or> AGE_BAND r = Some ''All deceased'')
        \<and> (\<forall>agg a. aggregate_ndop_by_measure ndop_df [Col_ACH_DATE, Col_GENDER] ''All'' = Inr agg
              \<and> a \<in> set agg \<and> GENDER a = Some ''Unknown / Prefer not to say'' \<longrightarrow>
              (\<exists>(i, r) \<in> set out. ACH_DATE r = ACH_DATE a \<and> AGE_BAND r = Some ''All''
                  \<and> GENDER r = Some ''Unknown / Prefer not to say'' \<and> OPT_OUT r = OPT_OUT a))"
    if c: "create_age_gen_csv ndop_df ndop_deceased_df list_size_df = Inr out"
  proof -
    from output_rows[OF c] obtain ndop_dfs ndop_deceased_dfs ls where
      a: "create_df_list_for_age_gen_csv ndop_df NDOP_MEASURES ''All'' = Inr ndop_dfs"
      and o: "set out = {x \<in> set (rate_pipeline (concat (ndop_dfs @ ndop_deceased_dfs)) ls).
                         \<not> suppressed (snd x)}"
      by blast
    have p: "\<forall>(i, r) \<in> set out. GENDER r = Some ''Unknown / Prefer not to say'' \<longrightarrow>
            AGE_BAND r = Some ''All'' \<or> AGE_BAND r = Some ''All deceased''"
      unfolding o by (auto simp: suppressed_def)
    have q: "\<exists>(i, r) \<in> set out. ACH_DATE r = ACH_DATE a \<and> AGE_BAND r = Some ''All''
                  \<and> GENDER r = Some ''Unknown / Prefer not to say'' \<and> OPT_OUT r = OPT_OUT a"
      if g: "aggregate_ndop_by_measure ndop_df [Col_ACH_DATE, Col_GENDER] ''All'' = Inr agg
              \<and> a \<in> set agg \<and> GENDER a = Some ''Unknown / Prefer not to say''" for agg a
    proof -
      from create_df_list_NDOP_MEASURES[of ndop_df "''All''"] a g
      have "agg \<in> set ndop_dfs" by auto
      with g have mem: "a \<in> set (concat (ndop_dfs @ ndop_deceased_dfs))" by auto
      from g have "a \<in> set (map (\<lambda>k. \<lparr>ACH_DATE = ACH_DATE k, AGE_BAND = fillna ''All'' (AGE_BAND k),
                      GENDER = fillna ''All'' (GENDER k),
                      OPT_OUT = length (filter (\<lambda>r. group_key [Col_ACH_DATE, Col_GENDER] r = k \<and>
                                   (\<not> has_null_key [Col_ACH_DATE, Col_GENDER] r \<and> NHS_Number r \<noteq> None)) ndop_df)\<rparr>)
            (groupby_groups [Col_ACH_DATE, Col_GENDER] ndop_df))"
        using aggregate_Inr[of "[Col_ACH_DATE, Col_GENDER]" ndop_df "''All''"] by simp
      then obtain k where k: "k \<in> set (groupby_groups [Col_ACH_DATE, Col_GENDER] ndop_df)"
        "AGE_BAND a = fillna ''All'' (AGE_BAND k)" by auto
      from k(1) have "AGE_BAND k = None"
        by (auto simp: groupby_groups_set group_key_def)
      with k(2) have age: "AGE_BAND a = Some ''All''" by (simp add: fillna_def)
      from rate_pipeline_covers[OF mem _ age, of ls] g
      obtain i r where r: "(i, r) \<in> set (rate_pipeline (concat (ndop_dfs @ ndop_deceased_dfs)) ls)"
        "ACH_DATE r = ACH_DATE a" "AGE_BAND r = Some ''All''"
        "GENDER r = Some ''Unknown / Prefer not to say''" "OPT_OUT r = OPT_OUT a"
        by auto
      from r(1,3) have "(i, r) \<in> set out" unfolding o by (simp add: suppressed_def)
      with r(2-5) show ?thesis by blast
    qed
    from p q show ?thesis by blast
  qed
  from 1 2 show ?thesis by blast
qed

theorem suppress_unknown_gender_rows_targeted_witness:
  "map fst (suppress_unknown_undisclosed_gender_rows (enumerate 0 unknown_gender_rows)) = [1, 3, 4]
   \<and> create_age_gen_csv unknown_gender_living [] zero_list_size = Inr unknown_gender_output
   \<and> (\<exists>(i, r) \<in> set unknown_gender_output.
         ACH_DATE r = Some (2022, 6, 1) \<and> AGE_BAND r = Some ''All''
         \<and> GENDER r = Some ''Unknown / Prefer not to say'' \<and> OPT_OUT r = 2)"
proof -
  let ?a = "\<lparr>ACH_DATE = Some (2022, 6, 1), AGE_BAND = Some ''All'',
             GENDER = Some ''Unknown / Prefer not to say'', OPT_OUT = 2\<rparr>"
  note t = suppress_unknown_gender_rows_targeted[of unknown_gender_rows unknown_gender_living
      "[]" zero_list_size unknown_gender_output]
  from t have "suppress_unknown_undisclosed_gender_rows (enumerate 0 unknown_gender_rows)
     = filter (\<lambda>(i, r). \<not> (GENDER r = Some ''Unknown / Prefer not to say''
                            \<and> AGE_BAND r \<noteq> Some ''All'' \<and> AGE_BAND r \<noteq> Some ''All deceased''))
         (enumerate 0 unknown_gender_rows)"
    by (rule conjunct1)
  then have 1: "map fst (suppress_unknown_undisclosed_gender_rows (enumerate 0 unknown_gender_rows)) = [1, 3, 4]"
    by (simp add: unknown_gender_rows_def)
  have 2: "create_age_gen_csv unknown_gender_living [] zero_list_size = Inr unknown_gender_output"
    by code_simp
  have g: "aggregate_ndop_by_measure unknown_gender_living [Col_ACH_DATE, Col_GENDER] ''All'' = Inr [?a]"
    by code_simp
  from t have "create_age_gen_csv unknown_gender_living [] zero_list_size = Inr unknown_gender_output \<longrightarrow>
        (\<forall>(i, r) \<in> set unknown_gender_output. GENDER r = Some ''Unknown / Prefer not to say'' \<longrightarrow>
            AGE_BAND r = Some ''All'' \<or> AGE_BAND r = Some ''All deceased'')
        \<and> (\<forall>agg a. aggregate_ndop_by_measure unknown_gender_living [Col_ACH_DATE, Col_GENDER] ''All'' = Inr agg
              \<and> a \<in> set agg \<and> GENDER a = Some ''Unknown / Prefer not to say'' \<longrightarrow>
              (\<exists>(i, r) \<in> set unknown_gender_output. ACH_DATE r = ACH_DATE a \<and> AGE_BAND r = Some ''All''
                  \<and> GENDER r = Some ''Unknown / Prefer not to say'' \<and> OPT_OUT r = OPT_OUT a))"
    by (rule conjunct2)
  from this 2 have "\<forall>agg a. aggregate_ndop_by_measure unknown_gender_living [Col_ACH_DATE, Col_GENDER] ''All'' = Inr agg
              \<and> a \<in> set agg \<and> GENDER a = Some ''Unknown / Prefer not to say'' \<longrightarrow>
              (\<exists>(i, r) \<in> set unknown_gender_output. ACH_DATE r = ACH_DATE a \<and> AGE_BAND r = Some ''All''
                  \<and> GENDER r = Some ''Unknown / Prefer not to say'' \<and> OPT_OUT r = OPT_OUT a)"
    by blast
  then have "aggregate_ndop_by_measure unknown_gender_living [Col_ACH_DATE, Col_GENDER] ''All'' = Inr [?a]
              \<and> ?a \<in> set [?a] \<and> GENDER ?a = Some ''Unknown / Prefer not to say'' \<longrightarrow>
              (\<exists>(i, r) \<in> set unknown_gender_output. ACH_DATE r = ACH_DATE ?a \<and> AGE_BAND r = Some ''All''
                  \<and> GENDER r = Some ''Unknown / Prefer not to say'' \<and> OPT_OUT r = OPT_OUT ?a)"
    by (elim allE)
  with g have 3: "\<exists>(i, r) \<in> set unknown_gender_output.
         ACH_DATE r = Some (2022, 6, 1) \<and> AGE_BAND r = Some ''All''
         \<and> GENDER r = Some ''Unknown / Prefer not to say'' \<and> OPT_OUT r = 2"
    by simp
  from 1 2 3 show ?thesis by (intro conjI)
qed

section \<open>Opt-out rate\<close>

text \<open>
  What the rate and fill steps leave in each row: the rate is 100 times count over list
  size where the list size is not zero, 0 where the list size is missing or both are
  zero, and plus infinity where the list size is zero and the count is not.
\<close>

lemma opt_out_rate_after_fill:
  "(i, r) \<in> set (fill_list_size_and_opt_out_nan_values (calculate_opt_out_rate (merge_left counts ls)))
   \<Longrightarrow> \<exists>v. LIST_SIZE r = Some (case v of None \<Rightarrow> 0 | Some n \<Rightarrow> n)
         \<and> OPT_OUT_RATE r =
             (case v of
                None \<Rightarrow> Finite 0
              | Some n \<Rightarrow>
                  if n = 0 then (if OPT_OUT r = 0 then Finite 0 else PosInf)
                  else Finite (100 * (real (OPT_OUT r) / real_of_int n)))"
proof -
  assume "(i, r) \<in> set (fill_list_size_and_opt_out_nan_values (calculate_opt_out_rate (merge_left counts ls)))"
  then obtain m :: merged_row where m: "OPT_OUT r = OPT_OUT m" "LIST_SIZE r = fillna 0 (LIST_SIZE m)"
      "OPT_OUT_RATE r = (case times_100 (true_divide (OPT_OUT m) (LIST_SIZE m)) of NaN \<Rightarrow> Finite 0 | x \<Rightarrow> x)"
    by (auto simp: fill_list_size_and_opt_out_nan_values_def calculate_opt_out_rate_def)
  show ?thesis
    by (rule exI[of _ "LIST_SIZE m"])
       (simp add: m fillna_def true_divide_def times_100_def split: option.splits)
qed

text \<open>
  Claim C6 asks for a rate of 0 whenever the denominator is 0, and for no infinity in the
  output. The code divides first and replaces NaN only: with one opt-out among women of
  40 to 49 and a list size of 0 for them, three of the four output rows carry an infinite
  rate.
\<close>

theorem zero_list_size_rate_is_infinite:
  "map_sum id (map (\<lambda>(i, r). (AGE_BAND r, GENDER r, OPT_OUT r, LIST_SIZE r, OPT_OUT_RATE r)))
     (create_age_gen_csv one_opt_out_living [] zero_list_size)
   = Inr [(Some ''40-49'', Some ''All'', 1, Some 0, PosInf),
          (Some ''All'', Some ''All'', 1, Some 250, Finite (2 / 5)),
          (Some ''40-49'', Some ''Female'', 1, Some 0, PosInf),
          (Some ''All'', Some ''Female'', 1, Some 0, PosInf)]"
  by code_simp

end
